theory Spec2Isabelle
  imports Complex_Main "HOL-Library.AList" "HOL-Library.Sublist"
begin

section \<open>Data model (types.ts)\<close>

text \<open>
  File contents are byte sequences. An Isabelle \<open>char\<close> is one byte, so a
  Node \<open>Buffer\<close> is a \<open>string\<close>.
\<close>

type_synonym bytes = string

text \<open>
  \<open>FileState\<close>: the optional fields \<open>hash\<close>, \<open>size\<close> and \<open>binary\<close> are
  options, \<open>None\<close> standing for a field that is not there.
\<close>

record FileState =
  exists :: bool
  hash :: "string option"
  size_f :: "nat option"
  binary :: "bool option"

text \<open>
  \<open>Manifest = Map<string, FileState>\<close>. A JavaScript \<open>Map\<close> keeps its keys in
  insertion order, and \<open>set\<close> on a key that is already there replaces the value in
  place; an association list updated with \<open>AList.update\<close> behaves the same way.
\<close>

type_synonym Manifest = "(string \<times> FileState) list"

definition manifest_get :: "Manifest \<Rightarrow> string \<Rightarrow> FileState option" where
  "manifest_get m p = map_of m p"

definition manifest_has :: "Manifest \<Rightarrow> string \<Rightarrow> bool" where
  "manifest_has m p = (map_of m p \<noteq> None)"

definition manifest_set :: "string \<Rightarrow> FileState \<Rightarrow> Manifest \<Rightarrow> Manifest" where
  "manifest_set p e m = AList.update p e m"

text \<open>The literal \<open>{ exists: false }\<close>.\<close>

definition absent_state :: FileState where
  "absent_state = \<lparr>exists = False, hash = None, size_f = None, binary = None\<rparr>"

text \<open>
  JavaScript truthiness of an optional string, as tested by \<open>!entry.hash\<close> and
  \<open>if (leafId)\<close>: \<open>undefined\<close>, \<open>null\<close> and the empty string are falsy.
\<close>

fun truthy :: "string option \<Rightarrow> bool" where
  "truthy None = False"
| "truthy (Some s) = (s \<noteq> [])"

record TrackedStats =
  fileCount :: nat
  totalBytes :: nat

datatype ChangeType = Added | Modified | Deleted

section \<open>Change classifier (diff-stack.ts)\<close>

datatype ChangeLetter = LetterA | LetterM | LetterD

text \<open>
  \<open>baseEntry?.exists ?? false\<close>: an entry that is not there counts as not existing.
\<close>

fun entry_exists :: "FileState option \<Rightarrow> bool" where
  "entry_exists None = False"
| "entry_exists (Some e) = exists e"

text \<open>\<open>baseEntry?.hash\<close>: \<open>undefined\<close> for a missing entry or a missing field.\<close>

fun entry_hash :: "FileState option \<Rightarrow> string option" where
  "entry_hash None = None"
| "entry_hash (Some e) = hash e"

definition describeChange :: "FileState option \<Rightarrow> FileState option \<Rightarrow> ChangeLetter option" where
  "describeChange baseEntry leafEntry =
     (let baseExists = entry_exists baseEntry;
          leafExists = entry_exists leafEntry
      in if \<not> baseExists \<and> leafExists then Some LetterA
         else if baseExists \<and> \<not> leafExists then Some LetterD
         else if baseExists \<and> leafExists \<and> entry_hash baseEntry \<noteq> entry_hash leafEntry then Some LetterM
         else None)"

fun toChangeType :: "ChangeLetter \<Rightarrow> ChangeType" where
  "toChangeType LetterA = Added"
| "toChangeType LetterM = Modified"
| "toChangeType LetterD = Deleted"

text \<open>
  The classifier as the specification words it, to compare with the code: the result
  is a change kind or nothing.
\<close>

definition classify_spec :: "FileState option \<Rightarrow> FileState option \<Rightarrow> ChangeType option" where
  "classify_spec b l =
     (case (entry_exists b, entry_exists l) of
        (False, False) \<Rightarrow> None
      | (False, True) \<Rightarrow> Some Added
      | (True, False) \<Rightarrow> Some Deleted
      | (True, True) \<Rightarrow> (if entry_hash b = entry_hash l then None else Some Modified))"

section \<open>Stat diff of the sandbox mirror (sandbox.ts)\<close>

text \<open>
  \<open>SandboxEntryStats\<close>: \<open>size\<close> is a byte count; \<open>mtimeMs\<close> is a finite
  double (it may carry a fraction of a millisecond), and the code only compares it for
  equality, so a rational stands for it.
\<close>

record SandboxEntryStats =
  size_s :: nat
  mtimeMs :: rat

type_synonym StatsMap = "(string \<times> SandboxEntryStats) list"

record StatsDiff =
  added :: "string list"
  removed :: "string list"
  changed :: "string list"

text \<open>
  The first loop of \<open>diffSandboxStats\<close>, over the entries of \<open>after\<close> in order.
  \<open>!previous\<close> holds exactly when \<open>before\<close> has no entry (an entry is an object,
  hence truthy).
\<close>

fun scan_after :: "StatsMap \<Rightarrow> StatsMap \<Rightarrow> string list \<times> string list \<Rightarrow> string list \<times> string list" where
  "scan_after before [] acc = acc"
| "scan_after before ((filePath, entry) # rest) (addedAcc, changedAcc) =
     (case map_of before filePath of
        None \<Rightarrow> scan_after before rest (addedAcc @ [filePath], changedAcc)
      | Some previous \<Rightarrow>
          if size_s previous \<noteq> size_s entry \<or> mtimeMs previous \<noteq> mtimeMs entry
          then scan_after before rest (addedAcc, changedAcc @ [filePath])
          else scan_after before rest (addedAcc, changedAcc))"

text \<open>The second loop, over the keys of \<open>before\<close> in order.\<close>

fun scan_before :: "StatsMap \<Rightarrow> string list \<Rightarrow> string list \<Rightarrow> string list" where
  "scan_before after [] removedAcc = removedAcc"
| "scan_before after (filePath # rest) removedAcc =
     (if map_of after filePath = None
      then scan_before after rest (removedAcc @ [filePath])
      else scan_before after rest removedAcc)"

definition diffSandboxStats :: "StatsMap \<Rightarrow> StatsMap \<Rightarrow> StatsDiff" where
  "diffSandboxStats before after =
     (let (addedL, changedL) = scan_after before after ([], []);
          removedL = scan_before after (map fst before) []
      in \<lparr>added = addedL, removed = removedL, changed = changedL\<rparr>)"

section \<open>Paths and the file tree (node:path, node:fs)\<close>

text \<open>
  \<open>path.join\<close>, \<open>path.dirname\<close>, \<open>rm\<close>, \<open>mkdir\<close> and \<open>writeFile\<close> come from Node,
  not from this repository. They are modelled here for a POSIX file system whose
  names are compared byte for byte and have at most 255 bytes (\<open>NAME_MAX\<close> on Linux),
  without symbolic or hard links, permissions, quotas or a limit on the length of a
  whole path: an operation fails only for what the tree of directories and files makes
  it fail for, or for a name that is too long or has a NUL byte.

  A path is the list of its segments from the root directory \<open>/\<close>. A relative path
  is read against the working directory, taken to be \<open>/\<close> (another working directory
  only renames the roots). \<open>fromPosix\<close> is the identity on POSIX.
\<close>

type_synonym Path = "string list"

text \<open>\<open>value.split("/")\<close>.\<close>

fun split_sep :: "string \<Rightarrow> string list" where
  "split_sep [] = [[]]"
| "split_sep (c # cs) =
     (if c = CHR ''/'' then [] # split_sep cs
      else (case split_sep cs of [] \<Rightarrow> [[c]] | s # ss \<Rightarrow> (c # s) # ss))"

text \<open>
  One step of \<open>path.normalize\<close>: empty segments and \<open>.\<close> are dropped, \<open>..\<close> removes
  the segment before it and stays at the root.
\<close>

definition normalize_step :: "Path \<Rightarrow> string \<Rightarrow> Path" where
  "normalize_step stack seg =
     (if seg = [] \<or> seg = ''.'' then stack
      else if seg = ''..'' then butlast stack
      else stack @ [seg])"

text \<open>
  \<open>path.join(root, relativePath)\<close>: the arguments that are not empty are joined with
  \<open>/\<close> and the result is normalised. \<open>path.normalize\<close> keeps a trailing separator
  (unless the result is the root): the second component records it.
\<close>

definition join_path :: "string \<Rightarrow> string \<Rightarrow> Path \<times> bool" where
  "join_path aRoot relativePath =
     (let joined = (if relativePath = [] then aRoot
                    else if aRoot = [] then relativePath
                    else aRoot @ ''/'' @ relativePath);
          segments = foldl normalize_step [] (split_sep joined)
      in (segments, segments \<noteq> [] \<and> joined \<noteq> [] \<and> last joined = CHR ''/''))"

text \<open>\<open>path.dirname\<close>: a trailing separator is ignored, and the root is its own parent.\<close>

definition dirname :: "Path \<times> bool \<Rightarrow> Path" where
  "dirname absPath = butlast (fst absPath)"

text \<open>The file tree: what is at a path is a regular file or a directory.\<close>

datatype Node = File bytes | Dir

type_synonym FS = "Path \<rightharpoonup> Node"

definition file_at :: "FS \<Rightarrow> Path \<Rightarrow> bytes option" where
  "file_at fs p = (case fs p of Some (File buffer) \<Rightarrow> Some buffer | Some Dir \<Rightarrow> None | None \<Rightarrow> None)"

text \<open>Some directory on the way to \<open>p\<close> is in fact a regular file.\<close>

definition file_ancestor :: "FS \<Rightarrow> Path \<Rightarrow> bool" where
  "file_ancestor fs p = list_ex (\<lambda>q. q \<noteq> p \<and> file_at fs q \<noteq> None) (prefixes p)"

text \<open>
  Node rejects a path with a NUL byte before any system call, and the system call
  rejects a name of more than 255 bytes.
\<close>

definition valid_path :: "Path \<Rightarrow> bool" where
  "valid_path p = list_all (\<lambda>seg. CHR 0x00 \<notin> set seg \<and> length seg \<le> 255) p"

datatype io_error =
    ENOENT string | EISDIR Path | ENOTDIR Path | EEXIST Path | EINVAL Path | ENAMETOOLONG Path

definition path_error :: "Path \<Rightarrow> io_error" where
  "path_error p = (if list_ex (\<lambda>seg. CHR 0x00 \<in> set seg) p then EINVAL p else ENAMETOOLONG p)"

datatype status = Completed | Thrown io_error

text \<open>
  \<open>rm(absPath, { force: true })\<close>, without \<open>recursive\<close>: \<open>lstat\<close> first, where
  \<open>force\<close> forgives \<open>ENOENT\<close> only; a directory is refused; a regular file is unlinked
  (a path with a trailing separator does not name a regular file).
\<close>

definition rm_force :: "Path \<times> bool \<Rightarrow> FS \<Rightarrow> io_error + FS" where
  "rm_force absPath fs =
     (case absPath of (p, trailing) \<Rightarrow>
        if \<not> valid_path p then Inl (path_error p)
        else if file_ancestor fs p then Inl (ENOTDIR p)
        else (case fs p of
                None \<Rightarrow> Inr fs
              | Some Dir \<Rightarrow> Inl (EISDIR p)
              | Some (File buffer) \<Rightarrow> if trailing then Inl (ENOTDIR p) else Inr (fs(p := None))))"

text \<open>
  \<open>mkdir(dir, { recursive: true })\<close>: every directory on the way that is missing is
  created; a regular file on the way, or at \<open>dir\<close> itself, makes it fail, and then
  nothing is created.
\<close>

definition mkdir_recursive :: "Path \<Rightarrow> FS \<Rightarrow> io_error + FS" where
  "mkdir_recursive d fs =
     (if \<not> valid_path d then Inl (path_error d)
      else if file_at fs d \<noteq> None then Inl (EEXIST d)
      else if file_ancestor fs d then Inl (ENOTDIR d)
      else Inr (\<lambda>q. if prefix q d then Some Dir else fs q))"

text \<open>
  \<open>writeFile(absPath, buffer)\<close>: the parent has to be a directory and the path must
  not be one; the file is created or replaced. A path with a trailing separator
  cannot be opened for writing.
\<close>

definition writeFile :: "Path \<times> bool \<Rightarrow> bytes \<Rightarrow> FS \<Rightarrow> io_error + FS" where
  "writeFile absPath buffer fs =
     (case absPath of (p, trailing) \<Rightarrow>
        if \<not> valid_path p then Inl (path_error p)
        else if trailing then Inl (EISDIR p)
        else (case fs (butlast p) of
                None \<Rightarrow> Inl (ENOENT (concat (map (\<lambda>seg. CHR ''/'' # seg) p)))
              | Some (File other) \<Rightarrow> Inl (ENOTDIR p)
              | Some Dir \<Rightarrow>
                  (case fs p of
                     Some Dir \<Rightarrow> Inl (EISDIR p)
                   | Some (File old) \<Rightarrow> Inr (fs(p \<mapsto> File buffer))
                   | None \<Rightarrow> Inr (fs(p \<mapsto> File buffer)))))"

section \<open>Cache: blob store and manifest store (cache.ts)\<close>

text \<open>
  The hash and the text codec come from Node (\<open>node:crypto\<close>, \<open>Buffer\<close>), not from this
  repository; they are parameters of the model. \<open>sha256_hex\<close> is the hexadecimal
  SHA-256 digest of a buffer; \<open>utf8_reencode\<close> is
  \<open>Buffer.from(buffer.toString("utf-8"), "utf-8")\<close>.
\<close>

record runtime =
  sha256_hex :: "bytes \<Rightarrow> string"
  utf8_reencode :: "bytes \<Rightarrow> bytes"

definition hashBuffer :: "runtime \<Rightarrow> bytes \<Rightarrow> string" where
  "hashBuffer rt buffer = sha256_hex rt buffer"

text \<open>
  \<open>ManifestRecord\<close>: a plain JavaScript object, here the list of its own properties in
  the order in which \<open>JSON.stringify\<close> and \<open>Object.entries\<close> list them: first the
  keys that are array indices (canonical decimal numbers below \<open>2^32 - 1\<close>), in
  ascending numeric order, then the other keys in the order of their creation.
\<close>

type_synonym ManifestRecord = "(string \<times> FileState) list"

definition digit_value :: "char \<Rightarrow> nat option" where
  "digit_value c = map_of (zip ''0123456789'' [0, 1, 2, 3, 4, 5, 6, 7, 8, 9]) c"

fun digits_value :: "string \<Rightarrow> nat \<Rightarrow> nat option" where
  "digits_value [] acc = Some acc"
| "digits_value (c # cs) acc =
     (case digit_value c of None \<Rightarrow> None | Some d \<Rightarrow> digits_value cs (10 * acc + d))"

definition array_index :: "string \<Rightarrow> nat option" where
  "array_index k =
     (if k = [] \<or> (hd k = CHR ''0'' \<and> k \<noteq> ''0'') then None
      else (case digits_value k 0 of
              None \<Rightarrow> None
            | Some n \<Rightarrow> if n < 4294967295 then Some n else None))"

fun insert_index :: "nat \<Rightarrow> string \<Rightarrow> FileState \<Rightarrow> ManifestRecord \<Rightarrow> ManifestRecord" where
  "insert_index i k v [] = [(k, v)]"
| "insert_index i k v ((k', v') # rest) =
     (case array_index k' of
        Some j \<Rightarrow> if j < i then (k', v') # insert_index i k v rest else (k, v) # (k', v') # rest
      | None \<Rightarrow> (k, v) # (k', v') # rest)"

text \<open>
  The assignment \<open>record[filePath] = { ...entry }\<close> on an object created by \<open>{}\<close>.
  The key \<open>__proto__\<close> reaches the setter of \<open>Object.prototype\<close>: it replaces the
  prototype and creates no own property.
\<close>

definition record_assign :: "string \<Rightarrow> FileState \<Rightarrow> ManifestRecord \<Rightarrow> ManifestRecord" where
  "record_assign filePath entry r =
     (if filePath = ''__proto__'' then r
      else if map_of r filePath \<noteq> None then AList.update filePath entry r
      else (case array_index filePath of
              Some i \<Rightarrow> insert_index i filePath entry r
            | None \<Rightarrow> r @ [(filePath, entry)]))"

definition serializeManifest :: "Manifest \<Rightarrow> ManifestRecord" where
  "serializeManifest manifest = foldl (\<lambda>r (filePath, entry). record_assign filePath entry r) [] manifest"

definition deserializeManifest :: "ManifestRecord option \<Rightarrow> Manifest" where
  "deserializeManifest r =
     (case r of
        None \<Rightarrow> []
      | Some entries \<Rightarrow> foldl (\<lambda>m (filePath, entry). manifest_set filePath entry m) [] entries)"

text \<open>
  The persisted layout of one session: the blob directory (file name = hash), the base
  manifest file and the manifest files of the leaves directory. A manifest file holds
  the \<open>files\<close> record of its JSON payload (\<open>JSON.stringify\<close> and \<open>JSON.parse\<close>
  keep the properties of the record, their fields and their order). The cache
  directories exist (\<open>ensure\<close> has run) and are kept apart from the file tree that
  manifests are applied to.

  A leaf file is \<open>path.join(leavesDir, `${leafId}.json`)\<close>, with the id as it is:
  \<open>leafFiles\<close> is keyed by that path relative to the leaves directory, normalised,
  where leading \<open>..\<close> segments stay.
\<close>

record Cache =
  blobs :: "string \<rightharpoonup> bytes"
  baseFile :: "ManifestRecord option"
  leafFiles :: "Path \<rightharpoonup> ManifestRecord"

definition relative_step :: "Path \<Rightarrow> string \<Rightarrow> Path" where
  "relative_step stack seg =
     (if seg = [] \<or> seg = ''.'' then stack
      else if seg = ''..'' then (if stack = [] \<or> last stack = ''..'' then stack @ [seg] else butlast stack)
      else stack @ [seg])"

definition leafPath :: "string \<Rightarrow> Path" where
  "leafPath leafId = foldl relative_step [] (split_sep (leafId @ ''.json''))"

text \<open>\<open>writeBlob\<close>: \<open>access\<close> succeeds when the blob file is there, and then nothing is written.\<close>

definition writeBlob :: "string \<Rightarrow> bytes \<Rightarrow> Cache \<Rightarrow> Cache" where
  "writeBlob h buffer c =
     (if blobs c h \<noteq> None then c else c\<lparr>blobs := (blobs c)(h \<mapsto> buffer)\<rparr>)"

definition readBlob :: "Cache \<Rightarrow> string \<Rightarrow> io_error + bytes" where
  "readBlob c h = (case blobs c h of None \<Rightarrow> Inl (ENOENT h) | Some buffer \<Rightarrow> Inr buffer)"

text \<open>
  \<open>readManifestFile\<close>: \<open>undefined\<close> when the file is not there (or has no \<open>files\<close>
  record), else the deserialised record.
\<close>

definition readManifestFile :: "ManifestRecord option \<Rightarrow> Manifest option" where
  "readManifestFile content =
     (case content of None \<Rightarrow> None | Some r \<Rightarrow> Some (deserializeManifest (Some r)))"


definition writeBase :: "Manifest \<Rightarrow> Cache \<Rightarrow> Cache" where
  "writeBase m c = c\<lparr>baseFile := Some (serializeManifest m)\<rparr>"

definition readLeaf :: "Cache \<Rightarrow> string \<Rightarrow> Manifest option" where
  "readLeaf c leafId = readManifestFile (leafFiles c (leafPath leafId))"


section \<open>Snapshot tracker (tracker.ts)\<close>

text \<open>
  The state the tracker works on: its own fields, the cache behind it, and the file
  tree that holds its roots. \<open>statsLog\<close> records the calls of the \<open>onStats\<close> callback.
\<close>

record Tracker =
  cache :: Cache
  realRoot :: string
  sandboxRoot :: string
  baseManifest :: Manifest
  trackedManifest :: Manifest
  leafCache :: "string \<rightharpoonup> Manifest"
  filesystem :: FS
  statsLog :: "TrackedStats list"

text \<open>
  What \<open>readFile\<close> finds: the content of the regular file at
  \<open>path.join(root, fromPosix(relativePath))\<close>, for a root and a relative path.
\<close>

type_synonym Disk = "(string \<times> string) \<rightharpoonup> bytes"

definition disk :: "Tracker \<Rightarrow> Disk" where
  "disk t =
     (\<lambda>rootAndPath.
        if snd (join_path (fst rootAndPath) (snd rootAndPath)) then None
        else file_at (filesystem t) (fst (join_path (fst rootAndPath) (snd rootAndPath))))"

record SnapshotData =
  s_exists :: bool
  s_buffer :: "bytes option"
  s_hash :: "string option"
  s_size :: "nat option"
  s_binary :: "bool option"

definition isBinaryBuffer :: "runtime \<Rightarrow> bytes \<Rightarrow> bool" where
  "isBinaryBuffer rt buffer =
     (if CHR 0x00 \<in> set buffer then True
      else utf8_reencode rt buffer \<noteq> buffer)"

text \<open>
  \<open>readSnapshot\<close>, for a path that names a regular file or nothing: the one read
  error is then \<open>ENOENT\<close>. (Where the path names a directory, \<open>readFile\<close> fails
  with another error, \<open>readSnapshot\<close> rethrows it and the caller records nothing.)
\<close>

definition readSnapshot :: "runtime \<Rightarrow> Disk \<Rightarrow> string \<times> string \<Rightarrow> SnapshotData" where
  "readSnapshot rt d absPath =
     (case d absPath of
        Some buffer \<Rightarrow>
          \<lparr>s_exists = True, s_buffer = Some buffer, s_hash = Some (hashBuffer rt buffer),
           s_size = Some (length buffer), s_binary = Some (isBinaryBuffer rt buffer)\<rparr>
      | None \<Rightarrow>
          \<lparr>s_exists = False, s_buffer = None, s_hash = None, s_size = None, s_binary = None\<rparr>)"

definition writeSnapshotToCache :: "Cache \<Rightarrow> SnapshotData \<Rightarrow> FileState \<times> Cache" where
  "writeSnapshotToCache c snapshot =
     (if \<not> s_exists snapshot then (absent_state, c)
      else if s_buffer snapshot = None \<or> \<not> truthy (s_hash snapshot) then (absent_state, c)
      else (\<lparr>exists = True, hash = s_hash snapshot, size_f = s_size snapshot,
              binary = s_binary snapshot\<rparr>,
            writeBlob (the (s_hash snapshot)) (the (s_buffer snapshot)) c))"

text \<open>
  \<open>getTrackedStats\<close>: the loop over the values of the tracked manifest;
  \<open>entry.size ?? 0\<close> counts a missing size as zero.
\<close>

fun stats_loop :: "Manifest \<Rightarrow> nat \<times> nat \<Rightarrow> nat \<times> nat" where
  "stats_loop [] acc = acc"
| "stats_loop ((p, entry) # rest) (fc, tb) =
     (if \<not> exists entry then stats_loop rest (fc, tb)
      else stats_loop rest (fc + 1, tb + (case size_f entry of None \<Rightarrow> 0 | Some n \<Rightarrow> n)))"

definition getTrackedStats :: "Tracker \<Rightarrow> TrackedStats" where
  "getTrackedStats t =
     (let (fc, tb) = stats_loop (trackedManifest t) (0, 0)
      in \<lparr>fileCount = fc, totalBytes = tb\<rparr>)"

definition emitStats :: "Tracker \<Rightarrow> Tracker" where
  "emitStats t = t\<lparr>statsLog := statsLog t @ [getTrackedStats t]\<rparr>"


definition setTrackedManifest :: "Manifest \<Rightarrow> Tracker \<Rightarrow> Tracker" where
  "setTrackedManifest manifest t = emitStats (t\<lparr>trackedManifest := manifest\<rparr>)"

definition ensureBase :: "runtime \<Rightarrow> string \<Rightarrow> string \<Rightarrow> Tracker \<Rightarrow> Tracker" where
  "ensureBase rt relativePath sourceRoot t =
     (if manifest_has (baseManifest t) relativePath then t
      else let snapshot = readSnapshot rt (disk t) (sourceRoot, relativePath);
               (entry, c) = writeSnapshotToCache (cache t) snapshot;
               base = manifest_set relativePath entry (baseManifest t)
           in t\<lparr>cache := writeBase base c, baseManifest := base\<rparr>)"

definition ensureBaseFromSandbox :: "runtime \<Rightarrow> string \<Rightarrow> Tracker \<Rightarrow> Tracker" where
  "ensureBaseFromSandbox rt relativePath t = ensureBase rt relativePath (sandboxRoot t) t"

definition ensureBaseFromDisk :: "runtime \<Rightarrow> string \<Rightarrow> Tracker \<Rightarrow> Tracker" where
  "ensureBaseFromDisk rt relativePath t = ensureBase rt relativePath (realRoot t) t"

definition updateFromSandbox :: "runtime \<Rightarrow> string \<Rightarrow> Tracker \<Rightarrow> FileState \<times> Tracker" where
  "updateFromSandbox rt relativePath t =
     (let snapshot = readSnapshot rt (disk t) (sandboxRoot t, relativePath);
          (entry, c) = writeSnapshotToCache (cache t) snapshot
      in (entry,
          emitStats (t\<lparr>cache := c,
                       trackedManifest := manifest_set relativePath entry (trackedManifest t)\<rparr>)))"

definition markDeleted :: "string \<Rightarrow> Tracker \<Rightarrow> Tracker" where
  "markDeleted relativePath t =
     emitStats (t\<lparr>trackedManifest := manifest_set relativePath absent_state (trackedManifest t)\<rparr>)"


definition loadLeaf :: "string \<Rightarrow> Tracker \<Rightarrow> Manifest option \<times> Tracker" where
  "loadLeaf leafId t =
     (case leafCache t leafId of
        Some cached \<Rightarrow> (Some cached, t)
      | None \<Rightarrow>
          (case readLeaf (cache t) leafId of
             Some manifest \<Rightarrow> (Some manifest, t\<lparr>leafCache := (leafCache t)(leafId \<mapsto> manifest)\<rparr>)
           | None \<Rightarrow> (None, t)))"

text \<open>
  \<open>applyManifest\<close>: the loop over the entries in order. Whatever throws (\<open>rm\<close>,
  \<open>readBlob\<close>, \<open>mkdir\<close>, \<open>writeFile\<close>) ends the loop, and what was done before stays
  done.
\<close>

fun applyManifest :: "Cache \<Rightarrow> Manifest \<Rightarrow> string \<Rightarrow> FS \<Rightarrow> status \<times> FS" where
  "applyManifest c [] targetRoot fs = (Completed, fs)"
| "applyManifest c ((relativePath, entry) # rest) targetRoot fs =
     (if \<not> exists entry then
        (case rm_force (join_path targetRoot relativePath) fs of
           Inl err \<Rightarrow> (Thrown err, fs)
         | Inr fs1 \<Rightarrow> applyManifest c rest targetRoot fs1)
      else if \<not> truthy (hash entry) then applyManifest c rest targetRoot fs
      else (case readBlob c (the (hash entry)) of
              Inl err \<Rightarrow> (Thrown err, fs)
            | Inr buffer \<Rightarrow>
                (case mkdir_recursive (dirname (join_path targetRoot relativePath)) fs of
                   Inl err \<Rightarrow> (Thrown err, fs)
                 | Inr fs1 \<Rightarrow>
                     (case writeFile (join_path targetRoot relativePath) buffer fs1 of
                        Inl err \<Rightarrow> (Thrown err, fs1)
                      | Inr fs2 \<Rightarrow> applyManifest c rest targetRoot fs2))))"

text \<open>The loop \<open>for (const root of applyRoots)\<close>.\<close>

fun applyRoots_loop :: "Cache \<Rightarrow> Manifest \<Rightarrow> string list \<Rightarrow> FS \<Rightarrow> status \<times> FS" where
  "applyRoots_loop c manifest [] fs = (Completed, fs)"
| "applyRoots_loop c manifest (aRoot # rest) fs =
     (case applyManifest c manifest aRoot fs of
        (Completed, fs1) \<Rightarrow> applyRoots_loop c manifest rest fs1
      | (Thrown err, fs1) \<Rightarrow> (Thrown err, fs1))"

text \<open>The overlay loop of \<open>restoreLeaf\<close>: every leaf entry is \<open>set\<close> into a copy of the base.\<close>

definition overlay :: "Manifest \<Rightarrow> Manifest \<Rightarrow> Manifest" where
  "overlay base leafManifest = foldl (\<lambda>m (relativePath, entry). manifest_set relativePath entry m) base leafManifest"

text \<open>
  The second half of \<open>restoreLeaf\<close>: the manifest is applied to every root in turn, and
  only then does \<open>setTrackedManifest\<close> replace the tracked manifest; a throw leaves
  it as it was.
\<close>

definition apply_and_track :: "Manifest \<Rightarrow> string list \<Rightarrow> Tracker \<Rightarrow> status \<times> Tracker" where
  "apply_and_track manifest applyRoots t =
     (case applyRoots_loop (cache t) manifest applyRoots (filesystem t) of
        (Completed, fs) \<Rightarrow> (Completed, setTrackedManifest manifest (t\<lparr>filesystem := fs\<rparr>))
      | (Thrown err, fs) \<Rightarrow> (Thrown err, t\<lparr>filesystem := fs\<rparr>))"

definition restoreLeaf :: "string option \<Rightarrow> string list \<Rightarrow> Tracker \<Rightarrow> status \<times> Tracker" where
  "restoreLeaf leafId applyRoots t =
     (let manifest = baseManifest t
      in if truthy leafId then
           (case loadLeaf (the leafId) t of
              (None, t1) \<Rightarrow> (Completed, t1)
            | (Some leafManifest, t1) \<Rightarrow>
                apply_and_track (overlay manifest leafManifest) applyRoots t1)
         else apply_and_track manifest applyRoots t)"

section \<open>Textual diff rendering (diff-stack.ts)\<close>

text \<open>
  One change object of \<open>Diff.diffLines\<close> (the \<open>diff\<close> package, not part of this
  repository): the text of the part, ending in a newline for every line but possibly the
  last, and the flags \<open>added\<close> and \<open>removed\<close>. The list of parts is a parameter of
  \<open>generateDiffString\<close>.
\<close>

record Part =
  part_value :: string
  part_added :: bool
  part_removed :: bool

text \<open>\<open>value.split("\n")\<close>: never empty; the text after the last newline is the last element.\<close>

fun split_nl :: "string \<Rightarrow> string list" where
  "split_nl [] = [[]]"
| "split_nl (c # cs) =
     (if c = CHR 0x0A then [] # split_nl cs
      else (case split_nl cs of l # ls \<Rightarrow> (c # l) # ls | [] \<Rightarrow> [[c]]))"

text \<open>\<open>raw\<close>: the lines of a part, without the empty string that follows a final newline.\<close>

definition raw_lines :: "string \<Rightarrow> string list" where
  "raw_lines v = (let raw = split_nl v in if last raw = [] then butlast raw else raw)"

text \<open>\<open>String(n)\<close> for a line number, and \<open>padStart(width, " ")\<close>.\<close>

fun show_nat :: "nat \<Rightarrow> string" where
  "show_nat n =
     (if n < 10 then [''0123456789'' ! n]
      else show_nat (n div 10) @ [''0123456789'' ! (n mod 10)])"

definition padStart :: "nat \<Rightarrow> string \<Rightarrow> string" where
  "padStart width s = replicate (width - length s) CHR '' '' @ s"

text \<open>
  The four kinds of line that the loop pushes to \<open>output\<close>, before they are formatted:
  an added line with its new line number, a removed line and an unchanged line with
  their old line number, and the ellipsis marker.
\<close>

datatype OutLine =
    AddedLine nat string
  | RemovedLine nat string
  | ContextLine nat string
  | Ellipsis

fun render :: "nat \<Rightarrow> OutLine \<Rightarrow> string" where
  "render lineNumWidth (AddedLine n line) = ''+'' @ padStart lineNumWidth (show_nat n) @ '' '' @ line"
| "render lineNumWidth (RemovedLine n line) = ''-'' @ padStart lineNumWidth (show_nat n) @ '' '' @ line"
| "render lineNumWidth (ContextLine n line) = '' '' @ padStart lineNumWidth (show_nat n) @ '' '' @ line"
| "render lineNumWidth Ellipsis = '' '' @ padStart lineNumWidth [] @ '' ...''"

text \<open>The inner loops: one output line per line of the part, the line number counting up.\<close>

fun number_lines :: "(nat \<Rightarrow> string \<Rightarrow> OutLine) \<Rightarrow> nat \<Rightarrow> string list \<Rightarrow> OutLine list" where
  "number_lines mk n [] = []"
| "number_lines mk n (line # rest) = mk n line # number_lines mk (Suc n) rest"

definition is_change :: "Part \<Rightarrow> bool" where
  "is_change part = (part_added part \<or> part_removed part)"

text \<open>
  What the loop body pushes for an unchanged part when the part before or the part
  after is a change, and by how much it advances both line numbers: \<open>skipStart\<close>,
  \<open>linesToShow\<close> and \<open>skipEnd\<close> as the code computes them.
\<close>

definition context_block :: "nat \<Rightarrow> bool \<Rightarrow> bool \<Rightarrow> nat \<Rightarrow> string list \<Rightarrow> OutLine list \<times> nat" where
  "context_block contextLines lastWasChange nextPartIsChange oldLineNum raw =
     (let skipStart = (if \<not> lastWasChange then length raw - contextLines else 0);
          linesToShow1 = (if \<not> lastWasChange then drop skipStart raw else raw);
          skipEnd = (if \<not> nextPartIsChange \<and> length linesToShow1 > contextLines
                     then length linesToShow1 - contextLines else 0);
          linesToShow = (if \<not> nextPartIsChange \<and> length linesToShow1 > contextLines
                         then take contextLines linesToShow1 else linesToShow1)
      in ((if skipStart > 0 then [Ellipsis] else [])
          @ number_lines ContextLine (oldLineNum + skipStart) linesToShow
          @ (if skipEnd > 0 then [Ellipsis] else []),
          skipStart + length linesToShow + skipEnd))"

text \<open>
  The main loop of \<open>generateDiffString\<close> over the parts, with its variables
  \<open>oldLineNum\<close>, \<open>newLineNum\<close>, \<open>lastWasChange\<close> and \<open>firstChangedLine\<close>. The result
  keeps what was pushed for each part apart (one block per part, in order); \<open>output\<close>
  is the concatenation of the blocks.
\<close>

fun diff_loop :: "nat \<Rightarrow> Part list \<Rightarrow> nat \<Rightarrow> nat \<Rightarrow> bool \<Rightarrow> nat option
    \<Rightarrow> OutLine list list \<times> nat option" where
  "diff_loop contextLines [] oldLineNum newLineNum lastWasChange firstChangedLine =
     ([], firstChangedLine)"
| "diff_loop contextLines (part # rest) oldLineNum newLineNum lastWasChange firstChangedLine =
     (let raw = raw_lines (part_value part) in
      if part_added part \<or> part_removed part then
        (let first = (case firstChangedLine of None \<Rightarrow> Some newLineNum | Some n \<Rightarrow> Some n);
             block = (if part_added part then number_lines AddedLine newLineNum raw
                      else number_lines RemovedLine oldLineNum raw);
             (blocks, final) =
               (if part_added part
                then diff_loop contextLines rest oldLineNum (newLineNum + length raw) True first
                else diff_loop contextLines rest (oldLineNum + length raw) newLineNum True first)
         in (block # blocks, final))
      else
        (let nextPartIsChange =
               (case rest of [] \<Rightarrow> False | nxt # _ \<Rightarrow> part_added nxt \<or> part_removed nxt);
             (block, advance) =
               (if lastWasChange \<or> nextPartIsChange
                then context_block contextLines lastWasChange nextPartIsChange oldLineNum raw
                else ([], length raw));
             (blocks, final) =
               diff_loop contextLines rest (oldLineNum + advance) (newLineNum + advance)
                 False firstChangedLine
         in (block # blocks, final)))"

definition diff_blocks :: "nat \<Rightarrow> Part list \<Rightarrow> OutLine list list" where
  "diff_blocks contextLines parts = fst (diff_loop contextLines parts 1 1 False None)"

text \<open>\<open>output.join("\n")\<close>.\<close>

fun join_nl :: "string list \<Rightarrow> string" where
  "join_nl [] = []"
| "join_nl [l] = l"
| "join_nl (l # ls) = l @ [CHR 0x0A] @ join_nl ls"

record DiffResult =
  diff :: string
  firstChangedLine :: "nat option"

definition diff_output :: "Part list \<Rightarrow> string \<Rightarrow> string \<Rightarrow> nat \<Rightarrow> string list" where
  "diff_output parts oldContent newContent contextLines =
     (let maxLineNum = max (length (split_nl oldContent)) (length (split_nl newContent));
          lineNumWidth = length (show_nat maxLineNum)
      in map (render lineNumWidth) (concat (diff_blocks contextLines parts)))"

definition generateDiffString :: "Part list \<Rightarrow> string \<Rightarrow> string \<Rightarrow> nat \<Rightarrow> DiffResult" where
  "generateDiffString parts oldContent newContent contextLines =
     \<lparr>diff = join_nl (diff_output parts oldContent newContent contextLines),
      firstChangedLine = snd (diff_loop contextLines parts 1 1 False None)\<rparr>"

text \<open>The unchanged lines and the ellipsis markers among some output lines.\<close>

fun context_texts :: "OutLine list \<Rightarrow> string list" where
  "context_texts [] = []"
| "context_texts (ContextLine n line # rest) = line # context_texts rest"
| "context_texts (other # rest) = context_texts rest"

fun ellipsis_count :: "OutLine list \<Rightarrow> nat" where
  "ellipsis_count [] = 0"
| "ellipsis_count (Ellipsis # rest) = Suc (ellipsis_count rest)"
| "ellipsis_count (other # rest) = ellipsis_count rest"

text \<open>
  Two texts that differ in their first and last line and share the nine lines in
  between, and the parts \<open>Diff.diffLines\<close> gives for them.
\<close>

definition nine_lines :: string where
  "nine_lines = ''u1'' @ [CHR 0x0A] @ ''u2'' @ [CHR 0x0A] @ ''u3'' @ [CHR 0x0A] @ ''u4'' @ [CHR 0x0A]
     @ ''u5'' @ [CHR 0x0A] @ ''u6'' @ [CHR 0x0A] @ ''u7'' @ [CHR 0x0A] @ ''u8'' @ [CHR 0x0A]
     @ ''u9'' @ [CHR 0x0A]"

definition middle_old :: string where
  "middle_old = ''x'' @ [CHR 0x0A] @ nine_lines @ ''y'' @ [CHR 0x0A]"

definition middle_new :: string where
  "middle_new = ''X'' @ [CHR 0x0A] @ nine_lines @ ''Y'' @ [CHR 0x0A]"

definition middle_parts :: "Part list" where
  "middle_parts =
     [\<lparr>part_value = ''x'' @ [CHR 0x0A], part_added = False, part_removed = True\<rparr>,
      \<lparr>part_value = ''X'' @ [CHR 0x0A], part_added = True, part_removed = False\<rparr>,
      \<lparr>part_value = nine_lines, part_added = False, part_removed = False\<rparr>,
      \<lparr>part_value = ''y'' @ [CHR 0x0A], part_added = False, part_removed = True\<rparr>,
      \<lparr>part_value = ''Y'' @ [CHR 0x0A], part_added = True, part_removed = False\<rparr>]"

section \<open>Undo and redo commands (index.ts)\<close>

text \<open>
  The fields of \<open>SessionState\<close> that the command handlers read and write. The stacks are
  arrays: \<open>push\<close> appends, \<open>pop\<close> takes the last element.
\<close>

record SessionState =
  currentLeafId :: "string option"
  undoStack :: "string list"
  redoStack :: "string list"
  navigating :: bool

datatype NoticeLevel = Info | Warning | Error

type_synonym Notice = "string \<times> NoticeLevel"

text \<open>\<open>array.pop()\<close>: the last element, or \<open>undefined\<close> for an empty array.\<close>

definition pop :: "string list \<Rightarrow> string option \<times> string list" where
  "pop xs = (if xs = [] then (None, []) else (Some (last xs), butlast xs))"

text \<open>
  The command context, which the host provides. \<open>interactive\<close>: \<open>waitForIdle\<close> and
  \<open>navigateTree\<close> are there. \<open>outcome\<close>: how \<open>await waitForIdle()\<close> followed by
  \<open>await navigateTree(targetId)\<close> ends. \<open>during\<close>: what other handlers of the
  extension (the \<open>session_tree\<close> event) do to the session while the command awaits.
\<close>

datatype NavOutcome =
    WaitThrows string
  | NavigateThrows string
  | NavigateCancelled
  | NavigateDone

record CommandContext =
  interactive :: bool
  outcome :: NavOutcome
  during :: "SessionState \<Rightarrow> SessionState"

fun failure_message :: "NavOutcome \<Rightarrow> string option" where
  "failure_message (WaitThrows msg) = Some msg"
| "failure_message (NavigateThrows msg) = Some msg"
| "failure_message NavigateCancelled = Some ''Navigation cancelled''"
| "failure_message NavigateDone = None"

definition navigateTo :: "CommandContext \<Rightarrow> SessionState \<Rightarrow> string \<Rightarrow> SessionState \<times> Notice list" where
  "navigateTo ctx session targetId =
     (let previousLeaf = currentLeafId session;
          previousUndo = undoStack session;
          previousRedo = redoStack session;
          s1 = session\<lparr>navigating := True\<rparr>
      in if \<not> interactive ctx
         then (s1\<lparr>navigating := False\<rparr>, [(''Undo/redo navigation requires interactive mode'', Warning)])
         else (case failure_message (outcome ctx) of
                 None \<Rightarrow> (during ctx s1, [])
               | Some message \<Rightarrow>
                   ((during ctx s1)\<lparr>undoStack := previousUndo, redoStack := previousRedo,
                                     currentLeafId := previousLeaf, navigating := False\<rparr>,
                    [(message, Warning)])))"

definition undo_command :: "CommandContext \<Rightarrow> SessionState option \<Rightarrow> SessionState option \<times> Notice list" where
  "undo_command ctx state =
     (case state of
        None \<Rightarrow> (None, [(''Undo/redo extension not initialized'', Error)])
      | Some session \<Rightarrow>
          (let (targetId, rest) = pop (undoStack session);
               s1 = session\<lparr>undoStack := rest\<rparr>
           in if \<not> truthy targetId then (Some s1, [(''No undo history'', Info)])
              else (let s2 = (if truthy (currentLeafId s1)
                              then s1\<lparr>redoStack := redoStack s1 @ [the (currentLeafId s1)]\<rparr>
                              else s1);
                        (s3, notices) = navigateTo ctx s2 (the targetId)
                    in (Some s3, notices))))"

definition redo_command :: "CommandContext \<Rightarrow> SessionState option \<Rightarrow> SessionState option \<times> Notice list" where
  "redo_command ctx state =
     (case state of
        None \<Rightarrow> (None, [(''Undo/redo extension not initialized'', Error)])
      | Some session \<Rightarrow>
          (let (targetId, rest) = pop (redoStack session);
               s1 = session\<lparr>redoStack := rest\<rparr>
           in if \<not> truthy targetId then (Some s1, [(''No redo history'', Info)])
              else (let s2 = (if truthy (currentLeafId s1)
                              then s1\<lparr>undoStack := undoStack s1 @ [the (currentLeafId s1)]\<rparr>
                              else s1);
                        (s3, notices) = navigateTo ctx s2 (the targetId)
                    in (Some s3, notices))))"

text \<open>
  A session on leaf \<open>b\<close> with leaf \<open>a\<close> on the undo stack, and a context whose
  \<open>navigateTree\<close> throws.
\<close>

definition session_ab :: SessionState where
  "session_ab = \<lparr>currentLeafId = Some ''b'', undoStack = [''a''], redoStack = [], navigating = False\<rparr>"

definition session_ba :: SessionState where
  "session_ba = \<lparr>currentLeafId = Some ''a'', undoStack = [], redoStack = [''b''], navigating = False\<rparr>"

definition throwing_ctx :: CommandContext where
  "throwing_ctx = \<lparr>interactive = True, outcome = NavigateThrows ''boom'', during = (\<lambda>s. s)\<rparr>"

section \<open>Notions used to state and prove the properties\<close>

text \<open>
  The FileState invariant of the data model, relative to a blob store: an entry that
  does not exist has no hash, size or binary flag, and the hash of an entry that exists
  is in the blob store.
\<close>

definition FileState_inv :: "Cache \<Rightarrow> FileState \<Rightarrow> bool" where
  "FileState_inv c e =
     ((\<not> exists e \<longrightarrow> hash e = None \<and> size_f e = None \<and> binary e = None)
      \<and> (exists e \<longrightarrow> (case hash e of None \<Rightarrow> True | Some h \<Rightarrow> blobs c h \<noteq> None)))"

definition manifest_inv :: "Cache \<Rightarrow> Manifest \<Rightarrow> bool" where
  "manifest_inv c m = list_all (\<lambda>(p, e). FileState_inv c e) m"

text \<open>Both manifests of a tracker satisfy the FileState invariant.\<close>

definition tracker_inv :: "Tracker \<Rightarrow> bool" where
  "tracker_inv t =
     (manifest_inv (cache t) (baseManifest t) \<and> manifest_inv (cache t) (trackedManifest t))"






















text \<open>Concrete values for the examples.\<close>

definition toy_runtime :: runtime where
  "toy_runtime = \<lparr>sha256_hex = (\<lambda>buffer. CHR ''h'' # buffer), utf8_reencode = (\<lambda>buffer. buffer)\<rparr>"

definition empty_cache :: Cache where
  "empty_cache = \<lparr>blobs = Map.empty, baseFile = None, leafFiles = Map.empty\<rparr>"




text \<open>Two sandbox files with the same content, and nothing stored yet.\<close>

definition dedup_tracker :: Tracker where
  "dedup_tracker =
     \<lparr>cache = empty_cache, realRoot = ''/real'', sandboxRoot = ''/sandbox'',
      baseManifest = [], trackedManifest = [], leafCache = Map.empty,
      filesystem = [[] \<mapsto> Dir, [''sandbox''] \<mapsto> Dir,
                    [''sandbox'', ''a.txt''] \<mapsto> File ''same'',
                    [''sandbox'', ''b.txt''] \<mapsto> File ''same''],
      statsLog = []\<rparr>"

text \<open>
  A tracker with one base entry whose blob is stored, a different file at that path
  under the real root, and no leaf saved.
\<close>

definition unsaved_tracker :: Tracker where
  "unsaved_tracker =
     \<lparr>cache = \<lparr>blobs = [''hx'' \<mapsto> ''x''], baseFile = None, leafFiles = Map.empty\<rparr>,
      realRoot = ''/real'', sandboxRoot = ''/sandbox'',
      baseManifest = [(''a.txt'', \<lparr>exists = True, hash = Some ''hx'', size_f = Some 1, binary = Some False\<rparr>)],
      trackedManifest = [], leafCache = Map.empty,
      filesystem = [[] \<mapsto> Dir, [''real''] \<mapsto> Dir, [''real'', ''a.txt''] \<mapsto> File ''y''],
      statsLog = []\<rparr>"






text \<open>
  What is shown of an unchanged run of lines \<open>raw\<close>, by whether the part before it and
  the part after it are changes: \<open>b\<close> is the block of output lines for the run.
\<close>

definition run_shown :: "nat \<Rightarrow> bool \<Rightarrow> bool \<Rightarrow> string list \<Rightarrow> OutLine list \<Rightarrow> bool" where
  "run_shown contextLines before after raw b =
     ((before \<and> after \<longrightarrow> context_texts b = raw \<and> ellipsis_count b = 0)
      \<and> (before \<and> \<not> after \<longrightarrow>
            context_texts b = take contextLines raw
            \<and> ellipsis_count b = (if contextLines < length raw then 1 else 0))
      \<and> (\<not> before \<and> after \<longrightarrow>
            context_texts b = drop (length raw - contextLines) raw
            \<and> ellipsis_count b = (if contextLines < length raw then 1 else 0))
      \<and> (\<not> before \<and> \<not> after \<longrightarrow> b = []))"

text \<open>Nine unchanged lines followed by a changed last line.\<close>

definition leading_parts :: "Part list" where
  "leading_parts =
     [\<lparr>part_value = nine_lines, part_added = False, part_removed = False\<rparr>,
      \<lparr>part_value = ''y'' @ [CHR 0x0A], part_added = False, part_removed = True\<rparr>,
      \<lparr>part_value = ''Y'' @ [CHR 0x0A], part_added = True, part_removed = False\<rparr>]"

section \<open>Theorems\<close>

subsection \<open>Stat diff\<close>

lemma scan_after_eq:
  "scan_after b a (x, y) =
     (x @ map fst (filter (\<lambda>(p, e). map_of b p = None) a),
      y @ map fst (filter (\<lambda>(p, e). case map_of b p of None \<Rightarrow> False
            | Some pr \<Rightarrow> size_s pr \<noteq> size_s e \<or> mtimeMs pr \<noteq> mtimeMs e) a))"
proof (induction a arbitrary: x y)
  case Nil
  show ?case by simp
next
  case (Cons pe a)
  obtain p e where pe: "pe = (p, e)" by (cases pe)
  show ?case
    unfolding pe by (cases "map_of b p") (simp_all add: Cons.IH)
qed

lemma scan_before_eq:
  "scan_before a ks acc = acc @ filter (\<lambda>p. map_of a p = None) ks"
  by (induction ks arbitrary: acc) auto

lemma map_of_distinct_mem:
  "distinct (map fst xs) \<Longrightarrow> (p, e) \<in> set xs \<longleftrightarrow> map_of xs p = Some e"
  by (auto dest: map_of_SomeD)


text \<open>
  C5. \<open>diffSandboxStats\<close> partitions the paths: the added list holds exactly the
  paths that are only in \<open>after\<close>, the changed list exactly the paths in both maps
  whose size or modification time differs, the removed list exactly the paths that are
  only in \<open>before\<close>, and a path in both maps with equal size and modification time is
  in none of the three lists. For \<open>before = {a:(1,100), b:(2,200)}\<close> and
  \<open>after = {b:(3,200), c:(4,300)}\<close> the result is added \<open>[c]\<close>, changed \<open>[b]\<close>,
  removed \<open>[a]\<close>. (The keys of a \<open>Map\<close> are distinct.)
\<close>

theorem diffSandboxStats_partition:
  assumes "distinct (map fst after)"
  shows "set (added (diffSandboxStats before after))
           = {p. map_of after p \<noteq> None \<and> map_of before p = None}
       \<and> set (changed (diffSandboxStats before after))
           = {p. \<exists>prev e. map_of before p = Some prev \<and> map_of after p = Some e
                   \<and> (size_s prev \<noteq> size_s e \<or> mtimeMs prev \<noteq> mtimeMs e)}
       \<and> set (removed (diffSandboxStats before after))
           = {p. map_of before p \<noteq> None \<and> map_of after p = None}
       \<and> (\<forall>p prev e. map_of before p = Some prev \<and> map_of after p = Some e
              \<and> size_s prev = size_s e \<and> mtimeMs prev = mtimeMs e
            \<longrightarrow> p \<notin> set (added (diffSandboxStats before after))
              \<and> p \<notin> set (changed (diffSandboxStats before after))
              \<and> p \<notin> set (removed (diffSandboxStats before after)))
       \<and> diffSandboxStats
            [(''a'', \<lparr>size_s = 1, mtimeMs = 100\<rparr>), (''b'', \<lparr>size_s = 2, mtimeMs = 200\<rparr>)]
            [(''b'', \<lparr>size_s = 3, mtimeMs = 200\<rparr>), (''c'', \<lparr>size_s = 4, mtimeMs = 300\<rparr>)]
           = \<lparr>added = [''c''], removed = [''a''], changed = [''b'']\<rparr>"
proof -
  let ?d = "diffSandboxStats before after"
  have mem: "\<And>p e. (p, e) \<in> set after \<longleftrightarrow> map_of after p = Some e"
    using assms by (rule map_of_distinct_mem)
  have a: "set (added ?d) = {p. map_of after p \<noteq> None \<and> map_of before p = None}"
  proof -
    have "set (added ?d) = fst ` {pe \<in> set after. map_of before (fst pe) = None}"
      by (simp add: diffSandboxStats_def scan_after_eq case_prod_beta)
    also have "\<dots> = {p. map_of after p \<noteq> None \<and> map_of before p = None}"
      using mem by force
    finally show ?thesis .
  qed
  have c: "set (changed ?d) = {p. \<exists>prev e. map_of before p = Some prev \<and> map_of after p = Some e
                   \<and> (size_s prev \<noteq> size_s e \<or> mtimeMs prev \<noteq> mtimeMs e)}"
  proof -
    have "set (changed ?d) = fst ` {pe \<in> set after. case map_of before (fst pe) of None \<Rightarrow> False
            | Some pr \<Rightarrow> size_s pr \<noteq> size_s (snd pe) \<or> mtimeMs pr \<noteq> mtimeMs (snd pe)}"
      by (simp add: diffSandboxStats_def scan_after_eq case_prod_beta)
    also have "\<dots> = {p. \<exists>prev e. map_of before p = Some prev \<and> map_of after p = Some e
                   \<and> (size_s prev \<noteq> size_s e \<or> mtimeMs prev \<noteq> mtimeMs e)}"
      using mem by (force split: option.splits)
    finally show ?thesis .
  qed
  have r: "set (removed ?d) = {p. map_of before p \<noteq> None \<and> map_of after p = None}"
  proof -
    have "set (removed ?d) = {p \<in> fst ` set before. map_of after p = None}"
      by (simp add: diffSandboxStats_def scan_after_eq scan_before_eq case_prod_beta)
    also have "\<dots> = {p. map_of before p \<noteq> None \<and> map_of after p = None}"
      by (auto simp: map_of_eq_None_iff)
    finally show ?thesis .
  qed
  have ex: "diffSandboxStats
            [(''a'', \<lparr>size_s = 1, mtimeMs = 100\<rparr>), (''b'', \<lparr>size_s = 2, mtimeMs = 200\<rparr>)]
            [(''b'', \<lparr>size_s = 3, mtimeMs = 200\<rparr>), (''c'', \<lparr>size_s = 4, mtimeMs = 300\<rparr>)]
           = \<lparr>added = [''c''], removed = [''a''], changed = [''b'']\<rparr>"
    by (simp add: diffSandboxStats_def)
  show ?thesis
    unfolding a c r using ex by auto
qed

theorem diffSandboxStats_partition_witness:
  "distinct (map fst [(''b'', \<lparr>size_s = 3, mtimeMs = 200\<rparr>), (''c'', \<lparr>size_s = 4, mtimeMs = 300\<rparr>)])
   \<and> set (added (diffSandboxStats
          [(''a'', \<lparr>size_s = 1, mtimeMs = 100\<rparr>), (''b'', \<lparr>size_s = 2, mtimeMs = 200\<rparr>)]
          [(''b'', \<lparr>size_s = 3, mtimeMs = 200\<rparr>), (''c'', \<lparr>size_s = 4, mtimeMs = 300\<rparr>)])) = {''c''}"
proof -
  have h: "distinct (map fst [(''b'', \<lparr>size_s = 3, mtimeMs = 200\<rparr>), (''c'', \<lparr>size_s = 4, mtimeMs = 300\<rparr>)])"
    by simp
  show ?thesis
    using h diffSandboxStats_partition [OF h,
        of "[(''a'', \<lparr>size_s = 1, mtimeMs = 100\<rparr>), (''b'', \<lparr>size_s = 2, mtimeMs = 200\<rparr>)]"]
    by simp
qed

subsection \<open>Change classifier\<close>

text \<open>
  C4. \<open>describeChange\<close> is total on its two optional arguments and follows the four-way
  table: it agrees with the table of the specification on every input; it is "added"
  when the base is absent or nonexistent and the leaf exists, "deleted" when the base
  exists and the leaf does not, "modified" when both exist with differing hashes, and
  no change otherwise. Two entries with equal existence and equal hash never give a
  change.
\<close>

theorem describeChange_table:
  "map_option toChangeType (describeChange b l) = classify_spec b l
   \<and> (\<not> entry_exists b \<and> \<not> entry_exists l \<longrightarrow> describeChange b l = None)
   \<and> (\<not> entry_exists b \<and> entry_exists l \<longrightarrow> describeChange b l = Some LetterA)
   \<and> (entry_exists b \<and> \<not> entry_exists l \<longrightarrow> describeChange b l = Some LetterD)
   \<and> (entry_exists b \<and> entry_exists l \<and> entry_hash b \<noteq> entry_hash l \<longrightarrow> describeChange b l = Some LetterM)
   \<and> (entry_exists b \<and> entry_exists l \<and> entry_hash b = entry_hash l \<longrightarrow> describeChange b l = None)
   \<and> (entry_exists b = entry_exists l \<and> entry_hash b = entry_hash l \<longrightarrow> describeChange b l = None)"
  by (cases "entry_exists b"; cases "entry_exists l")
     (simp_all add: describeChange_def classify_spec_def)

theorem describeChange_table_witness:
  "describeChange None (Some \<lparr>exists = True, hash = Some ''h1'', size_f = Some 4, binary = Some False\<rparr>) = Some LetterA
   \<and> describeChange (Some \<lparr>exists = True, hash = Some ''h1'', size_f = Some 4, binary = Some False\<rparr>)
        (Some absent_state) = Some LetterD
   \<and> describeChange (Some \<lparr>exists = True, hash = Some ''h1'', size_f = Some 4, binary = Some False\<rparr>)
        (Some \<lparr>exists = True, hash = Some ''h2'', size_f = Some 4, binary = Some False\<rparr>) = Some LetterM
   \<and> describeChange (Some \<lparr>exists = True, hash = Some ''h1'', size_f = Some 4, binary = Some False\<rparr>)
        (Some \<lparr>exists = True, hash = Some ''h1'', size_f = Some 9, binary = Some False\<rparr>) = None
   \<and> describeChange None (Some absent_state) = None"
  using describeChange_table [of None "Some \<lparr>exists = True, hash = Some ''h1'', size_f = Some 4, binary = Some False\<rparr>"]
    describeChange_table [of "Some \<lparr>exists = True, hash = Some ''h1'', size_f = Some 4, binary = Some False\<rparr>" "Some absent_state"]
    describeChange_table [of "Some \<lparr>exists = True, hash = Some ''h1'', size_f = Some 4, binary = Some False\<rparr>"
      "Some \<lparr>exists = True, hash = Some ''h2'', size_f = Some 4, binary = Some False\<rparr>"]
    describeChange_table [of "Some \<lparr>exists = True, hash = Some ''h1'', size_f = Some 4, binary = Some False\<rparr>"
      "Some \<lparr>exists = True, hash = Some ''h1'', size_f = Some 9, binary = Some False\<rparr>"]
    describeChange_table [of None "Some absent_state"]
  by (simp add: absent_state_def)

subsection \<open>Snapshot tracker\<close>

lemma disk_cache_update [simp]: "disk (t\<lparr>cache := c\<rparr>) = disk t"
  by (simp add: disk_def cong: if_cong)

lemma disk_trackedManifest_update [simp]: "disk (t\<lparr>trackedManifest := m\<rparr>) = disk t"
  by (simp add: disk_def cong: if_cong)

lemma disk_baseManifest_update [simp]: "disk (t\<lparr>baseManifest := m\<rparr>) = disk t"
  by (simp add: disk_def cong: if_cong)

lemma disk_leafCache_update [simp]: "disk (t\<lparr>leafCache := l\<rparr>) = disk t"
  by (simp add: disk_def cong: if_cong)

lemma disk_statsLog_update [simp]: "disk (t\<lparr>statsLog := l\<rparr>) = disk t"
  by (simp add: disk_def cong: if_cong)

lemma set_update_subset: "set (AList.update k v al) \<subseteq> insert (k, v) (set al)"
  by (induction al) auto

lemma join_real_a: "join_path ''/real'' ''a.txt'' = ([''real'', ''a.txt''], False)"
  by (simp add: join_path_def normalize_step_def)

lemma join_sandbox_a: "join_path ''/sandbox'' ''a.txt'' = ([''sandbox'', ''a.txt''], False)"
  by (simp add: join_path_def normalize_step_def)

lemma join_sandbox_b: "join_path ''/sandbox'' ''b.txt'' = ([''sandbox'', ''b.txt''], False)"
  by (simp add: join_path_def normalize_step_def)


lemma loadLeaf_fields:
  "loadLeaf lid t = (r, t1) \<Longrightarrow>
     cache t1 = cache t \<and> baseManifest t1 = baseManifest t \<and> trackedManifest t1 = trackedManifest t
     \<and> filesystem t1 = filesystem t \<and> statsLog t1 = statsLog t \<and> realRoot t1 = realRoot t
     \<and> sandboxRoot t1 = sandboxRoot t"
  by (auto simp: loadLeaf_def split: option.splits)

lemma restoreLeaf_unfold:
  "restoreLeaf leafId applyRoots t =
     (if truthy leafId then
        (case loadLeaf (the leafId) t of
           (None, t1) \<Rightarrow> (Completed, t1)
         | (Some leafManifest, t1) \<Rightarrow>
             apply_and_track (overlay (baseManifest t1) leafManifest) applyRoots t1)
      else apply_and_track (baseManifest t) applyRoots t)"
proof -
  obtain lm t1 where ll: "loadLeaf (the leafId) t = (lm, t1)" by (cases "loadLeaf (the leafId) t")
  from loadLeaf_fields [OF ll] have "baseManifest t1 = baseManifest t" by simp
  with ll show ?thesis by (simp add: restoreLeaf_def Let_def split: option.splits)
qed

text \<open>
  C10, as the code has it. \<open>restoreLeaf\<close> tests \<open>if (leafId)\<close>, which takes the
  empty string, like \<open>null\<close>, for no leaf. For every non-empty leaf id whose manifest is
  neither in the leaf cache nor in the persistent store, \<open>restoreLeaf\<close> completes and
  changes nothing: no file under any root, not the tracked manifest, and no stats are
  reported; the base manifest alone is not applied.
\<close>

theorem restoreLeaf_unknown_leaf_noop:
  assumes "lid \<noteq> []" and "leafCache t lid = None" and "readLeaf (cache t) lid = None"
  shows "restoreLeaf (Some lid) applyRoots t = (Completed, t)"
  using assms by (simp add: restoreLeaf_unfold loadLeaf_def)

theorem restoreLeaf_unknown_leaf_noop_witness:
  "''leaf-9'' \<noteq> [] \<and> leafCache unsaved_tracker ''leaf-9'' = None
   \<and> readLeaf (cache unsaved_tracker) ''leaf-9'' = None
   \<and> restoreLeaf (Some ''leaf-9'') [''/sandbox'', ''/real''] unsaved_tracker = (Completed, unsaved_tracker)
   \<and> disk unsaved_tracker (''/real'', ''a.txt'') = Some ''y''"
proof -
  have h1: "''leaf-9'' \<noteq> []" by simp
  have h2: "leafCache unsaved_tracker ''leaf-9'' = None" by (simp add: unsaved_tracker_def)
  have h3: "readLeaf (cache unsaved_tracker) ''leaf-9'' = None"
    by (simp add: unsaved_tracker_def readLeaf_def readManifestFile_def)
  have d: "disk unsaved_tracker (''/real'', ''a.txt'') = Some ''y''"
    by (simp add: disk_def join_real_a file_at_def unsaved_tracker_def)
  show ?thesis
    using h1 h2 h3 d restoreLeaf_unknown_leaf_noop [OF h1 h2 h3, of "[''/sandbox'', ''/real'']"]
    by simp
qed

text \<open>
  The claim as it is worded fails for the leaf id \<open>""\<close>, which is not \<open>null\<close> and has
  no manifest in the leaf cache or in the store: \<open>restoreLeaf\<close> applies the base manifest,
  and the file \<open>a.txt\<close> under the real root changes from \<open>y\<close> to the base content
  \<open>x\<close>.
\<close>

theorem restoreLeaf_empty_leaf_id_counterexample:
  "leafCache unsaved_tracker [] = None
   \<and> readLeaf (cache unsaved_tracker) [] = None
   \<and> disk unsaved_tracker (''/real'', ''a.txt'') = Some ''y''
   \<and> disk (snd (restoreLeaf (Some []) [''/real''] unsaved_tracker)) (''/real'', ''a.txt'') = Some ''x''
   \<and> trackedManifest (snd (restoreLeaf (Some []) [''/real''] unsaved_tracker))
       = baseManifest unsaved_tracker"
  by (simp add: restoreLeaf_unfold apply_and_track_def readBlob_def readLeaf_def readManifestFile_def
      setTrackedManifest_def emitStats_def unsaved_tracker_def disk_def join_real_a file_at_def
      dirname_def mkdir_recursive_def writeFile_def valid_path_def file_ancestor_def)

lemma writeBlob_present [simp]: "blobs (writeBlob h buffer c) h \<noteq> None"
  by (simp add: writeBlob_def)

lemma writeBlob_mono: "blobs c h' \<noteq> None \<Longrightarrow> blobs (writeBlob h buffer c) h' \<noteq> None"
  by (simp add: writeBlob_def)

lemma writeBlob_dom: "dom (blobs (writeBlob h buffer c)) = insert h (dom (blobs c))"
  by (auto simp: writeBlob_def)

lemma writeBlob_again: "writeBlob h buffer2 (writeBlob h buffer1 c) = writeBlob h buffer1 c"
  by (simp add: writeBlob_def)

lemma updateFromSandbox_existing:
  assumes "disk t (sandboxRoot t, p) = Some buffer" and "hashBuffer rt buffer \<noteq> []"
  shows "updateFromSandbox rt p t =
     (\<lparr>exists = True, hash = Some (hashBuffer rt buffer), size_f = Some (length buffer),
        binary = Some (isBinaryBuffer rt buffer)\<rparr>,
      emitStats (t\<lparr>cache := writeBlob (hashBuffer rt buffer) buffer (cache t),
                   trackedManifest := manifest_set p
                     \<lparr>exists = True, hash = Some (hashBuffer rt buffer), size_f = Some (length buffer),
                       binary = Some (isBinaryBuffer rt buffer)\<rparr> (trackedManifest t)\<rparr>))"
  using assms by (simp add: updateFromSandbox_def readSnapshot_def writeSnapshotToCache_def)

text \<open>
  C6. Blob-store writes are idempotent and deduplicating. \<open>writeBlob\<close> checks for the
  blob before it writes: a second write under the same hash changes nothing, whatever
  the buffer, and a write under a hash that is already stored changes nothing. The key
  is the digest of the bytes alone (SHA-256 in the code, a parameter here, never the
  empty string), so recording the same content for two paths gives both entries the
  same hash and adds that one key to the blob store; from an empty store, exactly one
  blob is stored, and it holds that content.
\<close>

theorem writeBlob_idempotent_dedup:
  "writeBlob h buffer2 (writeBlob h buffer1 c) = writeBlob h buffer1 c
   \<and> (blobs c h \<noteq> None \<longrightarrow> writeBlob h buffer1 c = c)
   \<and> (disk t (sandboxRoot t, p1) = Some buffer \<and> disk t (sandboxRoot t, p2) = Some buffer
        \<and> hashBuffer rt buffer \<noteq> [] \<longrightarrow>
      (let (e1, t1) = updateFromSandbox rt p1 t;
           (e2, t2) = updateFromSandbox rt p2 t1
       in hash e1 = Some (hashBuffer rt buffer) \<and> hash e2 = Some (hashBuffer rt buffer)
          \<and> dom (blobs (cache t2)) = insert (hashBuffer rt buffer) (dom (blobs (cache t)))
          \<and> (blobs (cache t) = Map.empty \<longrightarrow>
                card (dom (blobs (cache t2))) = 1
                \<and> blobs (cache t2) (hashBuffer rt buffer) = Some buffer)))"
proof -
  have a: "writeBlob h buffer2 (writeBlob h buffer1 c) = writeBlob h buffer1 c"
    by (rule writeBlob_again)
  have b: "blobs c h \<noteq> None \<longrightarrow> writeBlob h buffer1 c = c"
    by (simp add: writeBlob_def)
  have c: "(let (e1, t1) = updateFromSandbox rt p1 t;
           (e2, t2) = updateFromSandbox rt p2 t1
       in hash e1 = Some (hashBuffer rt buffer) \<and> hash e2 = Some (hashBuffer rt buffer)
          \<and> dom (blobs (cache t2)) = insert (hashBuffer rt buffer) (dom (blobs (cache t)))
          \<and> (blobs (cache t) = Map.empty \<longrightarrow>
                card (dom (blobs (cache t2))) = 1
                \<and> blobs (cache t2) (hashBuffer rt buffer) = Some buffer))"
    if h: "disk t (sandboxRoot t, p1) = Some buffer" "disk t (sandboxRoot t, p2) = Some buffer"
      "hashBuffer rt buffer \<noteq> []"
  proof -
    let ?e = "\<lparr>exists = True, hash = Some (hashBuffer rt buffer), size_f = Some (length buffer),
        binary = Some (isBinaryBuffer rt buffer)\<rparr>"
    let ?t1 = "emitStats (t\<lparr>cache := writeBlob (hashBuffer rt buffer) buffer (cache t),
                   trackedManifest := manifest_set p1 ?e (trackedManifest t)\<rparr>)"
    have u1: "updateFromSandbox rt p1 t = (?e, ?t1)"
      using h(1,3) by (rule updateFromSandbox_existing)
    have d1: "disk ?t1 (sandboxRoot ?t1, p2) = Some buffer"
      using h(2) by (simp add: emitStats_def)
    have c1: "cache ?t1 = writeBlob (hashBuffer rt buffer) buffer (cache t)"
      by (simp add: emitStats_def)
    note u2 = updateFromSandbox_existing [OF d1 h(3)]
    have c2: "cache (snd (updateFromSandbox rt p2 ?t1)) = writeBlob (hashBuffer rt buffer) buffer (cache t)"
      unfolding u2 by (simp add: emitStats_def writeBlob_again)
    have e2: "hash (fst (updateFromSandbox rt p2 ?t1)) = Some (hashBuffer rt buffer)"
      unfolding u2 by simp
    have em: "blobs (cache t) = Map.empty \<Longrightarrow>
        blobs (writeBlob (hashBuffer rt buffer) buffer (cache t)) (hashBuffer rt buffer) = Some buffer"
      by (simp add: writeBlob_def)
    show ?thesis
      unfolding u1 using c2 e2 em by (simp add: case_prod_beta writeBlob_dom)
  qed
  from a b c show ?thesis by blast
qed

theorem writeBlob_idempotent_dedup_witness:
  "disk dedup_tracker (sandboxRoot dedup_tracker, ''a.txt'') = Some ''same''
   \<and> disk dedup_tracker (sandboxRoot dedup_tracker, ''b.txt'') = Some ''same''
   \<and> hashBuffer toy_runtime ''same'' \<noteq> []
   \<and> blobs (cache dedup_tracker) = Map.empty
   \<and> card (dom (blobs (cache (snd (updateFromSandbox toy_runtime ''b.txt''
         (snd (updateFromSandbox toy_runtime ''a.txt'' dedup_tracker))))))) = 1"
proof -
  have h: "disk dedup_tracker (sandboxRoot dedup_tracker, ''a.txt'') = Some ''same''"
    "disk dedup_tracker (sandboxRoot dedup_tracker, ''b.txt'') = Some ''same''"
    "hashBuffer toy_runtime ''same'' \<noteq> []"
    "blobs (cache dedup_tracker) = Map.empty"
    by (simp_all add: dedup_tracker_def toy_runtime_def hashBuffer_def empty_cache_def
        disk_def join_sandbox_a join_sandbox_b file_at_def)
  show ?thesis
    using h writeBlob_idempotent_dedup [of "''k''" "''u''" "''v''" empty_cache dedup_tracker
        "''a.txt''" "''same''" "''b.txt''" toy_runtime]
    by (simp add: case_prod_beta Let_def)
qed

lemma manifest_get_set [simp]: "manifest_get (manifest_set p e m) p = Some e"
  by (simp add: manifest_get_def manifest_set_def update_conv')

lemma FileState_inv_absent [simp]: "FileState_inv c absent_state"
  by (simp add: FileState_inv_def absent_state_def)

lemma FileState_inv_mono:
  assumes "FileState_inv c e" and "\<And>h. blobs c h \<noteq> None \<Longrightarrow> blobs c' h \<noteq> None"
  shows "FileState_inv c' e"
  using assms by (auto simp: FileState_inv_def split: option.splits)

lemma manifest_inv_mono:
  assumes "manifest_inv c m" and "\<And>h. blobs c h \<noteq> None \<Longrightarrow> blobs c' h \<noteq> None"
  shows "manifest_inv c' m"
  using assms unfolding manifest_inv_def list_all_iff
  by (auto intro: FileState_inv_mono)

lemma manifest_inv_set:
  assumes "manifest_inv c m" and "FileState_inv c e"
  shows "manifest_inv c (manifest_set p e m)"
  using assms set_update_subset [of p e m]
  unfolding manifest_inv_def list_all_iff manifest_set_def by auto

lemma writeSnapshotToCache_inv:
  "FileState_inv (snd (writeSnapshotToCache c s)) (fst (writeSnapshotToCache c s))"
proof -
  have "FileState_inv c absent_state" by simp
  moreover have "truthy (s_hash s) \<Longrightarrow>
      FileState_inv (writeBlob (the (s_hash s)) (the (s_buffer s)) c)
        \<lparr>exists = True, hash = s_hash s, size_f = s_size s, binary = s_binary s\<rparr>"
    by (cases "s_hash s") (simp_all add: FileState_inv_def)
  ultimately show ?thesis
    by (simp add: writeSnapshotToCache_def)
qed

lemma writeSnapshotToCache_mono:
  "blobs c h \<noteq> None \<Longrightarrow> blobs (snd (writeSnapshotToCache c s)) h \<noteq> None"
  using writeBlob_mono [of c h "the (s_hash s)" "the (s_buffer s)"]
  by (simp add: writeSnapshotToCache_def)

lemma ensureBase_new:
  assumes "\<not> manifest_has (baseManifest t) p"
  shows "manifest_get (baseManifest (ensureBase rt p r t)) p
           = Some (fst (writeSnapshotToCache (cache t) (readSnapshot rt (disk t) (r, p))))
         \<and> FileState_inv (cache (ensureBase rt p r t))
             (fst (writeSnapshotToCache (cache t) (readSnapshot rt (disk t) (r, p))))"
proof -
  let ?w = "writeSnapshotToCache (cache t) (readSnapshot rt (disk t) (r, p))"
  have eb: "ensureBase rt p r t =
      t\<lparr>cache := writeBase (manifest_set p (fst ?w) (baseManifest t)) (snd ?w),
        baseManifest := manifest_set p (fst ?w) (baseManifest t)\<rparr>"
    using assms by (simp add: ensureBase_def case_prod_beta Let_def)
  have "FileState_inv (snd ?w) (fst ?w)" by (rule writeSnapshotToCache_inv)
  then have "FileState_inv (writeBase (manifest_set p (fst ?w) (baseManifest t)) (snd ?w)) (fst ?w)"
    by (rule FileState_inv_mono) (simp add: writeBase_def)
  then show ?thesis unfolding eb by simp
qed

lemma ensureBase_inv:
  assumes "tracker_inv t"
  shows "tracker_inv (ensureBase rt p r t)"
proof (cases "manifest_has (baseManifest t) p")
  case True
  with assms show ?thesis by (simp add: ensureBase_def)
next
  case False
  let ?w = "writeSnapshotToCache (cache t) (readSnapshot rt (disk t) (r, p))"
  let ?c = "writeBase (manifest_set p (fst ?w) (baseManifest t)) (snd ?w)"
  have eb: "ensureBase rt p r t =
      t\<lparr>cache := ?c, baseManifest := manifest_set p (fst ?w) (baseManifest t)\<rparr>"
    using False by (simp add: ensureBase_def case_prod_beta Let_def)
  have mono: "\<And>h. blobs (cache t) h \<noteq> None \<Longrightarrow> blobs ?c h \<noteq> None"
    by (simp add: writeBase_def writeSnapshotToCache_mono)
  have e: "FileState_inv ?c (fst ?w)"
    using ensureBase_new [OF False, of rt r] unfolding eb by simp
  from assms have b0: "manifest_inv (cache t) (baseManifest t)"
    and tr0: "manifest_inv (cache t) (trackedManifest t)"
    by (simp_all add: tracker_inv_def)
  from b0 have b: "manifest_inv ?c (baseManifest t)"
    by (rule manifest_inv_mono) (rule mono)
  from tr0 have tr: "manifest_inv ?c (trackedManifest t)"
    by (rule manifest_inv_mono) (rule mono)
  show ?thesis
    unfolding eb tracker_inv_def using manifest_inv_set [OF b e] tr by simp
qed

lemma updateFromSandbox_eq:
  "updateFromSandbox rt p t =
     (fst (writeSnapshotToCache (cache t) (readSnapshot rt (disk t) (sandboxRoot t, p))),
      emitStats (t\<lparr>cache := snd (writeSnapshotToCache (cache t) (readSnapshot rt (disk t) (sandboxRoot t, p))),
          trackedManifest := manifest_set p
            (fst (writeSnapshotToCache (cache t) (readSnapshot rt (disk t) (sandboxRoot t, p))))
            (trackedManifest t)\<rparr>))"
  by (simp add: updateFromSandbox_def case_prod_beta Let_def)

lemma updateFromSandbox_inv:
  assumes "tracker_inv t"
  shows "tracker_inv (snd (updateFromSandbox rt p t))"
proof -
  let ?w = "writeSnapshotToCache (cache t) (readSnapshot rt (disk t) (sandboxRoot t, p))"
  have mono: "\<And>h. blobs (cache t) h \<noteq> None \<Longrightarrow> blobs (snd ?w) h \<noteq> None"
    by (rule writeSnapshotToCache_mono)
  from assms have b0: "manifest_inv (cache t) (baseManifest t)"
    and tr0: "manifest_inv (cache t) (trackedManifest t)"
    by (simp_all add: tracker_inv_def)
  from b0 have b: "manifest_inv (snd ?w) (baseManifest t)"
    by (rule manifest_inv_mono) (rule mono)
  from tr0 have tr: "manifest_inv (snd ?w) (trackedManifest t)"
    by (rule manifest_inv_mono) (rule mono)
  have e: "FileState_inv (snd ?w) (fst ?w)" by (rule writeSnapshotToCache_inv)
  show ?thesis
    unfolding updateFromSandbox_eq tracker_inv_def
    using b manifest_inv_set [OF tr e] by (simp add: emitStats_def)
qed

lemma markDeleted_inv:
  assumes "tracker_inv t"
  shows "tracker_inv (markDeleted p t)"
  using assms manifest_inv_set [of "cache t" "trackedManifest t" absent_state p]
  by (simp add: tracker_inv_def markDeleted_def emitStats_def)

text \<open>
  C9. Every FileState that the tracker operations record satisfies the FileState
  invariant: an entry that does not exist has no hash, size or binary flag, and the
  hash of an entry that exists is in the blob store when the entry is recorded.
  \<open>ensureBaseFromSandbox\<close> and \<open>ensureBaseFromDisk\<close> record such an entry for a path the
  base does not have yet (and change nothing otherwise), \<open>updateFromSandbox\<close> and
  \<open>markDeleted\<close> record such an entry in the tracked manifest, and each of the four
  keeps the invariant for every entry of both manifests.
\<close>

theorem tracker_records_valid_FileState:
  "(\<not> manifest_has (baseManifest t) p \<longrightarrow>
      (\<exists>e. manifest_get (baseManifest (ensureBaseFromSandbox rt p t)) p = Some e
           \<and> FileState_inv (cache (ensureBaseFromSandbox rt p t)) e)
      \<and> (\<exists>e. manifest_get (baseManifest (ensureBaseFromDisk rt p t)) p = Some e
           \<and> FileState_inv (cache (ensureBaseFromDisk rt p t)) e))
   \<and> (manifest_has (baseManifest t) p \<longrightarrow>
        ensureBaseFromSandbox rt p t = t \<and> ensureBaseFromDisk rt p t = t)
   \<and> manifest_get (trackedManifest (snd (updateFromSandbox rt p t))) p
        = Some (fst (updateFromSandbox rt p t))
   \<and> FileState_inv (cache (snd (updateFromSandbox rt p t))) (fst (updateFromSandbox rt p t))
   \<and> manifest_get (trackedManifest (markDeleted p t)) p = Some absent_state
   \<and> FileState_inv (cache (markDeleted p t)) absent_state
   \<and> (tracker_inv t \<longrightarrow>
        tracker_inv (ensureBaseFromSandbox rt p t) \<and> tracker_inv (ensureBaseFromDisk rt p t)
        \<and> tracker_inv (snd (updateFromSandbox rt p t)) \<and> tracker_inv (markDeleted p t))"
proof -
  have a: "\<not> manifest_has (baseManifest t) p \<longrightarrow>
      (\<exists>e. manifest_get (baseManifest (ensureBaseFromSandbox rt p t)) p = Some e
           \<and> FileState_inv (cache (ensureBaseFromSandbox rt p t)) e)
      \<and> (\<exists>e. manifest_get (baseManifest (ensureBaseFromDisk rt p t)) p = Some e
           \<and> FileState_inv (cache (ensureBaseFromDisk rt p t)) e)"
  proof (intro impI conjI)
    assume n: "\<not> manifest_has (baseManifest t) p"
    from ensureBase_new [OF n, of rt "sandboxRoot t"]
    show "\<exists>e. manifest_get (baseManifest (ensureBaseFromSandbox rt p t)) p = Some e
           \<and> FileState_inv (cache (ensureBaseFromSandbox rt p t)) e"
      unfolding ensureBaseFromSandbox_def by (rule exI)
    from ensureBase_new [OF n, of rt "realRoot t"]
    show "\<exists>e. manifest_get (baseManifest (ensureBaseFromDisk rt p t)) p = Some e
           \<and> FileState_inv (cache (ensureBaseFromDisk rt p t)) e"
      unfolding ensureBaseFromDisk_def by (rule exI)
  qed
  have b: "manifest_has (baseManifest t) p \<longrightarrow>
        ensureBaseFromSandbox rt p t = t \<and> ensureBaseFromDisk rt p t = t"
    by (simp add: ensureBaseFromSandbox_def ensureBaseFromDisk_def ensureBase_def)
  have c: "manifest_get (trackedManifest (snd (updateFromSandbox rt p t))) p
        = Some (fst (updateFromSandbox rt p t))"
    by (simp add: updateFromSandbox_eq emitStats_def)
  have d: "FileState_inv (cache (snd (updateFromSandbox rt p t))) (fst (updateFromSandbox rt p t))"
    using writeSnapshotToCache_inv [of "cache t" "readSnapshot rt (disk t) (sandboxRoot t, p)"]
    by (simp add: updateFromSandbox_eq emitStats_def)
  have e: "manifest_get (trackedManifest (markDeleted p t)) p = Some absent_state"
    by (simp add: markDeleted_def emitStats_def)
  have f: "FileState_inv (cache (markDeleted p t)) absent_state"
    by simp
  have g: "tracker_inv t \<longrightarrow>
        tracker_inv (ensureBaseFromSandbox rt p t) \<and> tracker_inv (ensureBaseFromDisk rt p t)
        \<and> tracker_inv (snd (updateFromSandbox rt p t)) \<and> tracker_inv (markDeleted p t)"
    unfolding ensureBaseFromSandbox_def ensureBaseFromDisk_def
    by (simp add: ensureBase_inv updateFromSandbox_inv markDeleted_inv)
  from a b c d e f g show ?thesis by (intro conjI)
qed

theorem tracker_records_valid_FileState_witness:
  "\<not> manifest_has (baseManifest dedup_tracker) ''a.txt''
   \<and> tracker_inv dedup_tracker
   \<and> manifest_get (baseManifest (ensureBaseFromSandbox toy_runtime ''a.txt'' dedup_tracker)) ''a.txt''
       = Some \<lparr>exists = True, hash = Some ''hsame'', size_f = Some 4, binary = Some False\<rparr>
   \<and> blobs (cache (ensureBaseFromSandbox toy_runtime ''a.txt'' dedup_tracker)) ''hsame'' = Some ''same''
   \<and> tracker_inv (ensureBaseFromSandbox toy_runtime ''a.txt'' dedup_tracker)"
proof -
  have h1: "\<not> manifest_has (baseManifest dedup_tracker) ''a.txt''"
    by (simp add: manifest_has_def dedup_tracker_def)
  have h2: "tracker_inv dedup_tracker"
    by (simp add: tracker_inv_def manifest_inv_def dedup_tracker_def)
  have ev: "ensureBaseFromSandbox toy_runtime ''a.txt'' dedup_tracker =
     dedup_tracker\<lparr>cache := \<lparr>blobs = [''hsame'' \<mapsto> ''same''],
         baseFile = Some [(''a.txt'', \<lparr>exists = True, hash = Some ''hsame'', size_f = Some 4, binary = Some False\<rparr>)],
         leafFiles = Map.empty\<rparr>,
       baseManifest := [(''a.txt'', \<lparr>exists = True, hash = Some ''hsame'', size_f = Some 4, binary = Some False\<rparr>)]\<rparr>"
    by (simp add: ensureBaseFromSandbox_def ensureBase_def manifest_has_def dedup_tracker_def
        readSnapshot_def writeSnapshotToCache_def toy_runtime_def hashBuffer_def isBinaryBuffer_def
        writeBlob_def writeBase_def manifest_set_def empty_cache_def Let_def
        disk_def join_sandbox_a file_at_def serializeManifest_def record_assign_def
        array_index_def digit_value_def)
  have v: "manifest_get (baseManifest (ensureBaseFromSandbox toy_runtime ''a.txt'' dedup_tracker)) ''a.txt''
       = Some \<lparr>exists = True, hash = Some ''hsame'', size_f = Some 4, binary = Some False\<rparr>"
    "blobs (cache (ensureBaseFromSandbox toy_runtime ''a.txt'' dedup_tracker)) ''hsame'' = Some ''same''"
    unfolding ev by (simp_all add: manifest_get_def)
  note inst = tracker_records_valid_FileState [of dedup_tracker "''a.txt''" toy_runtime]
  from inst have "tracker_inv dedup_tracker \<longrightarrow>
        tracker_inv (ensureBaseFromSandbox toy_runtime ''a.txt'' dedup_tracker)
        \<and> tracker_inv (ensureBaseFromDisk toy_runtime ''a.txt'' dedup_tracker)
        \<and> tracker_inv (snd (updateFromSandbox toy_runtime ''a.txt'' dedup_tracker))
        \<and> tracker_inv (markDeleted ''a.txt'' dedup_tracker)"
    by (elim conjE)
  with h2 have ti: "tracker_inv (ensureBaseFromSandbox toy_runtime ''a.txt'' dedup_tracker)"
    by (elim impE conjE)
  from h1 h2 v(1) v(2) ti show ?thesis by (intro conjI)
qed

subsection \<open>File tree\<close>
















subsection \<open>Applying a manifest\<close>

















































































subsection \<open>Textual diff rendering\<close>

lemma context_texts_number_lines_Context [simp]:
  "context_texts (number_lines ContextLine n ls) = ls"
  by (induction ls arbitrary: n) simp_all

lemma context_texts_number_lines_Added [simp]:
  "context_texts (number_lines AddedLine n ls) = []"
  by (induction ls arbitrary: n) simp_all

lemma context_texts_number_lines_Removed [simp]:
  "context_texts (number_lines RemovedLine n ls) = []"
  by (induction ls arbitrary: n) simp_all

lemma ellipsis_count_number_lines [simp]:
  "ellipsis_count (number_lines ContextLine n ls) = 0"
  "ellipsis_count (number_lines AddedLine n ls) = 0"
  "ellipsis_count (number_lines RemovedLine n ls) = 0"
  by (induction ls arbitrary: n) simp_all

lemma context_texts_append [simp]:
  "context_texts (xs @ ys) = context_texts xs @ context_texts ys"
  by (induction xs rule: context_texts.induct) simp_all

lemma ellipsis_count_append [simp]:
  "ellipsis_count (xs @ ys) = ellipsis_count xs + ellipsis_count ys"
  by (induction xs rule: ellipsis_count.induct) simp_all

lemma context_block_shown:
  "before \<or> after \<Longrightarrow> run_shown ctx before after raw (fst (context_block ctx before after old raw))"
  by (auto simp: run_shown_def context_block_def Let_def)

lemma diff_loop_length:
  "length (fst (diff_loop ctx parts old new lw fc)) = length parts"
  by (induction parts arbitrary: old new lw fc) (simp_all add: Let_def case_prod_beta)

lemma diff_loop_tail:
  "\<exists>old' new' fc'. tl (fst (diff_loop ctx (part # rest) old new lw fc))
      = fst (diff_loop ctx rest old' new' (is_change part) fc')"
proof (cases "part_added part")
  case True
  then have "tl (fst (diff_loop ctx (part # rest) old new lw fc))
      = fst (diff_loop ctx rest old (new + length (raw_lines (part_value part))) (is_change part)
          (case fc of None \<Rightarrow> Some new | Some n \<Rightarrow> Some n))"
    by (simp add: is_change_def Let_def case_prod_beta)
  then show ?thesis by blast
next
  case False
  show ?thesis
  proof (cases "part_removed part")
    case True
    with False have "tl (fst (diff_loop ctx (part # rest) old new lw fc))
      = fst (diff_loop ctx rest (old + length (raw_lines (part_value part))) new (is_change part)
          (case fc of None \<Rightarrow> Some new | Some n \<Rightarrow> Some n))"
      by (simp add: is_change_def Let_def case_prod_beta)
    then show ?thesis by blast
  next
    case nr: False
    let ?nx = "case rest of [] \<Rightarrow> False | nxt # _ \<Rightarrow> part_added nxt \<or> part_removed nxt"
    let ?adv = "snd (if lw \<or> ?nx
                     then context_block ctx lw ?nx old (raw_lines (part_value part))
                     else ([], length (raw_lines (part_value part))))"
    from False nr have "tl (fst (diff_loop ctx (part # rest) old new lw fc))
      = fst (diff_loop ctx rest (old + ?adv) (new + ?adv) (is_change part) fc)"
      by (simp add: is_change_def Let_def case_prod_beta)
    then show ?thesis by blast
  qed
qed

lemma diff_loop_block:
  assumes "i < length parts"
  shows "(is_change (parts ! i) \<longrightarrow>
            context_texts (fst (diff_loop ctx parts old new lw fc) ! i) = []
            \<and> ellipsis_count (fst (diff_loop ctx parts old new lw fc) ! i) = 0)
       \<and> (\<not> is_change (parts ! i) \<longrightarrow>
            run_shown ctx (if i = 0 then lw else is_change (parts ! (i - 1)))
              (Suc i < length parts \<and> is_change (parts ! Suc i))
              (raw_lines (part_value (parts ! i)))
              (fst (diff_loop ctx parts old new lw fc) ! i))"
  using assms
proof (induction parts arbitrary: i old new lw fc)
  case Nil
  then show ?case by simp
next
  case (Cons part rest)
  show ?case
  proof (cases i)
    case 0
    show ?thesis
    proof (cases "is_change part")
      case True
      then show ?thesis
        unfolding 0 by (simp add: is_change_def Let_def case_prod_beta)
    next
      case False
      let ?nx = "case rest of [] \<Rightarrow> False | nxt # _ \<Rightarrow> part_added nxt \<or> part_removed nxt"
      have nx: "?nx = (Suc 0 < length (part # rest) \<and> is_change ((part # rest) ! Suc 0))"
        by (cases rest) (simp_all add: is_change_def)
      have blk: "fst (diff_loop ctx (part # rest) old new lw fc) ! 0
          = (if lw \<or> ?nx then fst (context_block ctx lw ?nx old (raw_lines (part_value part))) else [])"
        using False by (simp add: is_change_def Let_def case_prod_beta)
      have "run_shown ctx lw ?nx (raw_lines (part_value part))
              (fst (diff_loop ctx (part # rest) old new lw fc) ! 0)"
      proof (cases "lw \<or> ?nx")
        case True
        then show ?thesis unfolding blk using context_block_shown [of lw ?nx ctx] by simp
      next
        case False
        then show ?thesis unfolding blk by (simp add: run_shown_def)
      qed
      then show ?thesis
        unfolding 0 using False nx by simp
    qed
  next
    case (Suc j)
    with Cons.prems have j: "j < length rest" by simp
    from diff_loop_tail [of ctx part rest old new lw fc] obtain old' new' fc' where
      tl: "tl (fst (diff_loop ctx (part # rest) old new lw fc))
             = fst (diff_loop ctx rest old' new' (is_change part) fc')" by blast
    define lw' where "lw' = is_change part"
    have ne: "fst (diff_loop ctx (part # rest) old new lw fc) \<noteq> []"
      using diff_loop_length [of ctx "part # rest" old new lw fc] by auto
    have step: "fst (diff_loop ctx (part # rest) old new lw fc) ! Suc j
               = fst (diff_loop ctx rest old' new' lw' fc') ! j"
      using tl ne unfolding lw'_def by (metis hd_Cons_tl nth_Cons_Suc)
    have lw': "lw' = is_change part" by (simp add: lw'_def)
    note IH = Cons.IH [OF j, of old' new' lw' fc']
    have prev: "(if j = 0 then lw' else is_change (rest ! (j - 1)))
                  = is_change ((part # rest) ! (Suc j - 1))"
      using lw' by (cases j) simp_all
    show ?thesis
      unfolding Suc step using IH prev by simp
  qed
qed

lemma raw_lines_nine: "raw_lines nine_lines = [''u1'', ''u2'', ''u3'', ''u4'', ''u5'', ''u6'', ''u7'', ''u8'', ''u9'']"
  by (simp add: raw_lines_def nine_lines_def)

text \<open>
  C8, as the code has it. The lines printed for an unchanged run depend on its two
  neighbours. Next to a changed region on one side only, at most the context window of
  its lines is printed, those nearest the change, and a run longer than the window gets
  exactly one ellipsis marker in place of the rest. Between two changed regions the
  run is printed in full, whatever its length, with no marker. With no changed region
  on either side nothing is printed for it, not even a marker. Changed parts contribute
  no unchanged lines and no markers. (\<open>diff_blocks\<close> has one block of output lines per
  part of the diff, in order.)
\<close>

theorem generateDiffString_context_window:
  assumes "i < length parts"
  shows "length (diff_blocks contextLines parts) = length parts
   \<and> (is_change (parts ! i) \<longrightarrow>
        context_texts (diff_blocks contextLines parts ! i) = []
        \<and> ellipsis_count (diff_blocks contextLines parts ! i) = 0)
   \<and> (\<not> is_change (parts ! i) \<longrightarrow>
        (let raw = raw_lines (part_value (parts ! i));
             before = (0 < i \<and> is_change (parts ! (i - 1)));
             after = (Suc i < length parts \<and> is_change (parts ! Suc i));
             b = diff_blocks contextLines parts ! i
         in (before \<and> after \<longrightarrow> context_texts b = raw \<and> ellipsis_count b = 0)
            \<and> (before \<and> \<not> after \<longrightarrow>
                  context_texts b = take contextLines raw
                  \<and> length (context_texts b) \<le> contextLines
                  \<and> ellipsis_count b = (if contextLines < length raw then 1 else 0))
            \<and> (\<not> before \<and> after \<longrightarrow>
                  context_texts b = drop (length raw - contextLines) raw
                  \<and> length (context_texts b) \<le> contextLines
                  \<and> ellipsis_count b = (if contextLines < length raw then 1 else 0))
            \<and> (\<not> before \<and> \<not> after \<longrightarrow> b = [])))"
proof -
  note blk = diff_loop_block [OF assms, of contextLines 1 1 False None]
  have prev: "(if i = 0 then False else is_change (parts ! (i - 1)))
                = (0 < i \<and> is_change (parts ! (i - 1)))" by simp
  have 1: "length (diff_blocks contextLines parts) = length parts"
    by (simp add: diff_blocks_def diff_loop_length)
  have 2: "is_change (parts ! i) \<longrightarrow>
        context_texts (diff_blocks contextLines parts ! i) = []
        \<and> ellipsis_count (diff_blocks contextLines parts ! i) = 0"
    using blk by (simp add: diff_blocks_def)
  have 3: "\<not> is_change (parts ! i) \<longrightarrow>
        run_shown contextLines (0 < i \<and> is_change (parts ! (i - 1)))
          (Suc i < length parts \<and> is_change (parts ! Suc i))
          (raw_lines (part_value (parts ! i))) (diff_blocks contextLines parts ! i)"
    using blk unfolding prev by (simp add: diff_blocks_def)
  from 1 2 3 show ?thesis
    by (auto simp: run_shown_def Let_def)
qed

theorem generateDiffString_context_window_witness:
  "(0::nat) < length leading_parts
   \<and> \<not> is_change (leading_parts ! 0)
   \<and> context_texts (diff_blocks 4 leading_parts ! 0) = [''u6'', ''u7'', ''u8'', ''u9'']
   \<and> ellipsis_count (diff_blocks 4 leading_parts ! 0) = 1"
proof -
  have h: "(0::nat) < length leading_parts" by (simp add: leading_parts_def)
  have nc: "\<not> is_change (leading_parts ! 0)" by (simp add: leading_parts_def is_change_def)
  have nx: "Suc 0 < length leading_parts \<and> is_change (leading_parts ! Suc 0)"
    by (simp add: leading_parts_def is_change_def)
  have raw: "raw_lines (part_value (leading_parts ! 0)) = [''u1'', ''u2'', ''u3'', ''u4'', ''u5'', ''u6'', ''u7'', ''u8'', ''u9'']"
    by (simp add: leading_parts_def raw_lines_nine)
  note inst = generateDiffString_context_window [OF h, of 4, THEN conjunct2, THEN conjunct2, THEN mp, OF nc]
  from inst nx have "context_texts (diff_blocks 4 leading_parts ! 0)
        = drop (length (raw_lines (part_value (leading_parts ! 0))) - 4)
            (raw_lines (part_value (leading_parts ! 0)))
      \<and> ellipsis_count (diff_blocks 4 leading_parts ! 0)
          = (if 4 < length (raw_lines (part_value (leading_parts ! 0))) then 1 else 0)"
    by (simp add: Let_def)
  then have "context_texts (diff_blocks 4 leading_parts ! 0) = [''u6'', ''u7'', ''u8'', ''u9'']
      \<and> ellipsis_count (diff_blocks 4 leading_parts ! 0) = 1"
    unfolding raw by simp
  with h nc show ?thesis by (intro conjI) simp_all
qed

text \<open>
  The claim as it is worded fails: in the diff of \<open>middle_old\<close> and \<open>middle_new\<close> the
  nine unchanged lines lie between two changed regions, and all nine are printed, with
  no ellipsis marker line, although the context window is four lines.
\<close>

theorem generateDiffString_middle_run_counterexample:
  "diff_output middle_parts middle_old middle_new 4 =
     [''- 1 x'', ''+ 1 X'', ''  2 u1'', ''  3 u2'', ''  4 u3'', ''  5 u4'', ''  6 u5'', ''  7 u6'',
      ''  8 u7'', ''  9 u8'', '' 10 u9'', ''-11 y'', ''+11 Y'']"
proof -
  have w: "length (show_nat (max (length (split_nl middle_old)) (length (split_nl middle_new)))) = 2"
    by (simp add: middle_old_def middle_new_def nine_lines_def)
  have r1: "raw_lines [CHR ''x'', CHR 0x0A] = [''x'']" "raw_lines [CHR ''X'', CHR 0x0A] = [''X'']"
    "raw_lines [CHR ''y'', CHR 0x0A] = [''y'']" "raw_lines [CHR ''Y'', CHR 0x0A] = [''Y'']"
    by (simp_all add: raw_lines_def)
  have b: "concat (diff_blocks 4 middle_parts) =
     [RemovedLine 1 ''x'', AddedLine 1 ''X'', ContextLine 2 ''u1'', ContextLine 3 ''u2'',
      ContextLine 4 ''u3'', ContextLine 5 ''u4'', ContextLine 6 ''u5'', ContextLine 7 ''u6'',
      ContextLine 8 ''u7'', ContextLine 9 ''u8'', ContextLine 10 ''u9'',
      RemovedLine 11 ''y'', AddedLine 11 ''Y'']"
    by (simp add: diff_blocks_def middle_parts_def r1 raw_lines_nine context_block_def Let_def)
  show ?thesis
    unfolding diff_output_def Let_def w b by (simp add: padStart_def)
qed

subsection \<open>Undo and redo commands\<close>

lemma navigateTo_failure:
  assumes "interactive ctx" and "failure_message (outcome ctx) = Some msg"
  shows "undoStack (fst (navigateTo ctx session targetId)) = undoStack session
       \<and> redoStack (fst (navigateTo ctx session targetId)) = redoStack session
       \<and> currentLeafId (fst (navigateTo ctx session targetId)) = currentLeafId session
       \<and> \<not> navigating (fst (navigateTo ctx session targetId))"
  using assms by (simp add: navigateTo_def Let_def)

text \<open>
  C1 does not hold of the code. \<open>/undo\<close> pops the target and pushes the current leaf
  before it calls \<open>navigateTo\<close>; \<open>navigateTo\<close> saves the stacks on entry, after these
  changes, and on a failure restores what it saved. Starting on leaf \<open>b\<close> with \<open>a\<close> on
  the undo stack, a \<open>/undo\<close> whose \<open>navigateTree\<close> throws ends with an empty undo
  stack and \<open>b\<close> on the redo stack: the history entry is lost and the command is not a
  no-op. \<open>/redo\<close> does the same with the stacks exchanged.
\<close>

theorem undo_failed_navigation_loses_history:
  "undo_command throwing_ctx (Some session_ab)
     = (Some \<lparr>currentLeafId = Some ''b'', undoStack = [], redoStack = [''b''], navigating = False\<rparr>,
        [(''boom'', Warning)])
   \<and> redo_command throwing_ctx (Some session_ba)
     = (Some \<lparr>currentLeafId = Some ''a'', undoStack = [''a''], redoStack = [], navigating = False\<rparr>,
        [(''boom'', Warning)])"
  by (simp add: undo_command_def redo_command_def navigateTo_def pop_def session_ab_def
      session_ba_def throwing_ctx_def Let_def)

end
